theory Spec2Isabelle
  imports Main "HOL-Library.Word" "HOL-Library.Signed_Division"
begin

unbundle bit_operations_syntax

section \<open>Persistent memory as a byte store\<close>

text \<open>
  The runtime reaches persistent memory through raw pointers (\<^verbatim>\<open>unsafe.Pointer\<close>,
  \<^verbatim>\<open>uintptr\<close>): the store is a map from 64-bit addresses to bytes. The only platform
  the sources build for is linux/amd64, so \<^verbatim>\<open>uintptr\<close> and \<^verbatim>\<open>int\<close> are 64 bits wide
  and multi-byte values are little-endian.
\<close>

type_synonym u8 = "8 word"
type_synonym u32 = "32 word"
type_synonym u64 = "64 word"
type_synonym memory = "u64 \<Rightarrow> u8"

definition load_bytes :: "memory \<Rightarrow> u64 \<Rightarrow> nat \<Rightarrow> u8 list" where
  "load_bytes m a n = map (\<lambda>i. m (a + of_nat i)) [0..<n]"

definition store_bytes :: "memory \<Rightarrow> u64 \<Rightarrow> u8 list \<Rightarrow> memory" where
  "store_bytes m a bs = (\<lambda>x. if unat (x - a) < length bs then bs ! unat (x - a) else m x)"

definition le_bytes :: "nat \<Rightarrow> 'a::len word \<Rightarrow> u8 list" where
  "le_bytes n v = map (\<lambda>i. ucast (drop_bit (8 * i) v)) [0..<n]"

fun le_word :: "u8 list \<Rightarrow> 'a::len word" where
  "le_word [] = 0"
| "le_word (b # bs) = ucast b OR push_bit 8 (le_word bs)"

definition load32 :: "memory \<Rightarrow> u64 \<Rightarrow> u32" where
  "load32 m a = le_word (load_bytes m a 4)"

definition load64 :: "memory \<Rightarrow> u64 \<Rightarrow> u64" where
  "load64 m a = le_word (load_bytes m a 8)"

definition store32 :: "memory \<Rightarrow> u64 \<Rightarrow> u32 \<Rightarrow> memory" where
  "store32 m a v = store_bytes m a (le_bytes 4 v)"

definition store64 :: "memory \<Rightarrow> u64 \<Rightarrow> u64 \<Rightarrow> memory" where
  "store64 m a v = store_bytes m a (le_bytes 8 v)"

text \<open>
  Every store and every call of a persistence primitive is recorded, in program order, in
  a trace next to the store: that a write is skipped, or that one write comes before
  another, is a statement about the trace.
\<close>

datatype event =
    Store u64 "u8 list"
  | AtomicStore u64 u32
  | FlushRange u64 u64
  | PersistRange u64 u64
  | Println string
  | SysAlloc u64
  | SysFree u64 u64
  | FreeSpan u64 u64

record pmem =
  mem :: memory
  trace :: "event list"

definition emit :: "event \<Rightarrow> pmem \<Rightarrow> pmem" where
  "emit e st = st\<lparr>trace := trace st @ [e]\<rparr>"

definition write_bytes :: "u64 \<Rightarrow> u8 list \<Rightarrow> pmem \<Rightarrow> pmem" where
  "write_bytes a bs st = st\<lparr>mem := store_bytes (mem st) a bs, trace := trace st @ [Store a bs]\<rparr>"

definition write64 :: "u64 \<Rightarrow> u64 \<Rightarrow> pmem \<Rightarrow> pmem" where
  "write64 a v st = write_bytes a (le_bytes 8 v) st"

definition println :: "string \<Rightarrow> pmem \<Rightarrow> pmem" where
  "println msg st = emit (Println msg) st"

definition atomic_Store :: "u64 \<Rightarrow> u32 \<Rightarrow> pmem \<Rightarrow> pmem" where
  "atomic_Store a v st = st\<lparr>mem := store32 (mem st) a v, trace := trace st @ [AtomicStore a v]\<rparr>"

text \<open>
  \<^verbatim>\<open>throw\<close> ends the process with a message; an index or a slice bound out of range
  and a nil dereference panic.
\<close>

datatype error = Throw string | IndexOutOfRange | SliceOutOfRange | NilDereference

section \<open>What the sources take from the rest of the runtime\<close>

text \<open>
  Modelled from the spec: the declarations of \<^verbatim>\<open>pArena\<close> and \<^verbatim>\<open>mspan\<close> are not among
  the sources. An arena is a contiguous mapped extent whose header, at address \<open>paddr\<close>,
  describes it (\<open>mapAddr\<close>, \<open>size\<close>, \<open>fileOffset\<close>, where 0 marks the first arena; the
  earlier \<^verbatim>\<open>runtime/pmemLog.go\<close> reads the field \<open>offset\<close> instead). These fields are
  written when the arena is created and only read here, so they are fields of a record;
  the undo-log fields of the header, which the functions below write, live in the byte
  store. A span carries its base address, its element size, its span class (the
  runtime's \<^verbatim>\<open>spanClass\<close> is a \<^verbatim>\<open>uint8\<close>; the sources say it ranges over 4..133 for
  small spans and is 0 or 1 for large ones), the one-bit needs-zero flag, its memory
  type, its type index and its owning arena.
\<close>

record pArena =
  paddr :: u64
  mapAddr :: u64
  size :: u64
  fileOffset :: u64
  offset :: u64

record mspan =
  base :: u64
  elemsize :: u64
  spanclass :: u8
  needzero :: bool
  memtype :: nat
  typIndex :: u64
  pArena :: pArena

text \<open>
  The runtime constants and helpers that the sources use and do not declare are
  parameters: the page shift, the largest small-object size, the sizes of the region
  header and of the arena header, \<^verbatim>\<open>pArena.layout()\<close> (metadata size and usable size of an
  arena), the offsets of the undo-log fields inside the arena header, the span lookup
  (\<^verbatim>\<open>spanOf\<close>, \<^verbatim>\<open>spanOfUnchecked\<close>: \<open>None\<close> is a nil span) and the heap's \<^verbatim>\<open>sysAlloc\<close>,
  which answers a request of so many bytes with an address (0 is nil) and a size. The
  store holds the contents of the backing file at the addresses where \<^verbatim>\<open>sysAlloc\<close> maps it.
\<close>

record env =
  pageShift :: nat
  maxSmallSize :: u64
  pmemHeaderSize :: u64
  pArenaHeaderSize :: u64
  layout :: "pArena \<Rightarrow> u64 \<times> u64"
  numLogEntries_off :: u64
  logs_off :: u64
  spanOf :: "u64 \<Rightarrow> mspan option"
  sysAlloc :: "u64 \<Rightarrow> u64 \<times> u64"

definition pageSize :: "env \<Rightarrow> u64" where
  "pageSize k = push_bit (pageShift k) 1"

text \<open>
  Modelled from the spec: \<^verbatim>\<open>bytesPerBitmapByte\<close> and \<^verbatim>\<open>spanBytesPerPage\<close> are not declared
  in the sources; the spec gives one type-bitmap byte per 32 data bytes and one 32-bit
  span-log word per page (\<^verbatim>\<open>logBytesPerPage = 4\<close> in the earliest source).
\<close>

definition bytesPerBitmapByte :: u64 where
  "bytesPerBitmapByte = 32"

definition spanBytesPerPage :: u64 where
  "spanBytesPerPage = 4"

definition isNotPersistent :: nat where
  "isNotPersistent = 0"

definition isPersistent :: nat where
  "isPersistent = 1"

section \<open>The span allocation log\<close>

text \<open>The packed log value, with the optimized-type flag (latest source).\<close>

definition spanLogValue :: "env \<Rightarrow> mspan \<Rightarrow> u32" where
  "spanLogValue k s =
     (let logVal :: u64 =
        (if elemsize s > maxSmallSize k then
           let npages = drop_bit (pageShift k) (elemsize s)
           in push_bit 3 (66 + npages - 4) OR push_bit 2 (ucast (spanclass s)) OR of_bool (needzero s)
         else
           let optTypeLog :: u64 = of_bool (typIndex s \<noteq> 0)
           in push_bit 2 (ucast (spanclass s)) OR push_bit 1 optTypeLog OR of_bool (needzero s))
      in ucast logVal)"

definition spanLogAddr :: "env \<Rightarrow> mspan \<Rightarrow> u64" where
  "spanLogAddr k s =
     (let pa = pArena s;
          (mdSize, allocSize) = layout k pa;
          arenaStart = mapAddr pa + mdSize;
          offset = (if fileOffset pa = 0 then pmemHeaderSize k else 0);
          spanBitmap = mapAddr pa + offset + pArenaHeaderSize k + allocSize div bytesPerBitmapByte;
          pageOffset = drop_bit (pageShift k) (base s - arenaStart)
      in spanBitmap + pageOffset * spanBytesPerPage)"

definition logSpanAlloc :: "env \<Rightarrow> mspan \<Rightarrow> pmem \<Rightarrow> error + pmem" where
  "logSpanAlloc k s st =
     (if memtype s = isNotPersistent then Inl (Throw ''Invalid span passed to logSpanAlloc'')
      else
        let logAddr = spanLogAddr k s;
            logVal = spanLogValue k s;
            bitmapVal = load32 (mem st) logAddr
        in if bitmapVal \<noteq> 0 \<and> drop_bit 2 bitmapVal \<noteq> drop_bit 2 logVal
           then Inl (Throw ''Logged span information mismatch'')
           else if bitmapVal \<noteq> 0 \<and> bitmapVal AND 3 = logVal AND 3
           then Inr st
           else Inr (emit (FlushRange logAddr 4) (atomic_Store logAddr logVal st)))"

definition logSpanFree :: "env \<Rightarrow> mspan \<Rightarrow> pmem \<Rightarrow> error + pmem" where
  "logSpanFree k s st =
     (if memtype s = isNotPersistent then Inl (Throw ''Invalid span passed to logSpanAlloc'')
      else
        let logAddr = spanLogAddr k s
        in Inr (emit (PersistRange logAddr 4) (atomic_Store logAddr 0 st)))"

text \<open>The earlier \<^verbatim>\<open>runtime/pmemLog.go\<close>: no optimized-type flag, one low bit.\<close>

definition spanLogValue0 :: "env \<Rightarrow> mspan \<Rightarrow> u32" where
  "spanLogValue0 k s =
     (let logVal :: u64 =
        (if elemsize s > maxSmallSize k then
           let npages = drop_bit (pageShift k) (elemsize s)
           in push_bit 2 (66 + npages - 4) OR push_bit 1 (ucast (spanclass s)) OR of_bool (needzero s)
         else push_bit 1 (ucast (spanclass s)) OR of_bool (needzero s))
      in ucast logVal)"

definition spanLogAddr0 :: "env \<Rightarrow> mspan \<Rightarrow> u64" where
  "spanLogAddr0 k s =
     (let pa = pArena s;
          (mdSize, allocSize) = layout k pa;
          arenaStart = mapAddr pa + mdSize;
          spanBitmap = mapAddr pa + offset pa + pArenaHeaderSize k + allocSize div bytesPerBitmapByte;
          pageOffset = drop_bit (pageShift k) (base s - arenaStart)
      in spanBitmap + pageOffset * spanBytesPerPage)"

definition logSpanAlloc0 :: "env \<Rightarrow> mspan \<Rightarrow> pmem \<Rightarrow> error + pmem" where
  "logSpanAlloc0 k s st =
     (if memtype s = isNotPersistent then Inl (Throw ''Invalid span passed to logSpanAlloc'')
      else
        let logAddr = spanLogAddr0 k s;
            logVal = spanLogValue0 k s;
            bitmapVal = load32 (mem st) logAddr
        in if bitmapVal \<noteq> 0 \<and> drop_bit 1 bitmapVal \<noteq> drop_bit 1 logVal
           then Inl (Throw ''Logged span information mismatch'')
           else if bitmapVal \<noteq> 0 \<and> bitmapVal AND 1 = logVal AND 1
           then Inr st
           else Inr (emit (PersistRange logAddr 4) (atomic_Store logAddr logVal st)))"

section \<open>The heap pointer-bitmap log\<close>


definition intSize :: u64 where
  "intSize = 8"






text \<open>The earlier \<^verbatim>\<open>runtime/pmemLog.go\<close>.\<close>

definition pmemHeapBitsAddr0 :: "env \<Rightarrow> u64 \<Rightarrow> pArena \<Rightarrow> u64" where
  "pmemHeapBitsAddr0 k x pa =
     (let arenaOffset = offset pa;
          typeBitsAddr = mapAddr pa + arenaOffset + pArenaHeaderSize k;
          (mdSize, allocSize) = layout k pa;
          arenaStart = mapAddr pa + mdSize;
          allocOffset = (x - arenaStart) div 32
      in typeBitsAddr + allocOffset)"

definition clearHeapBits :: "env \<Rightarrow> u64 \<Rightarrow> u64 \<Rightarrow> pmem \<Rightarrow> error + pmem" where
  "clearHeapBits k addr sz st =
     (case spanOf k addr of None \<Rightarrow> Inl NilDereference | Some span \<Rightarrow>
        if memtype span \<noteq> isPersistent then Inl (Throw ''Invalid heap type bits logging request'')
        else
          let pa = pArena span;
              heapBitsAddr = pmemHeapBitsAddr0 k addr pa;
              numTypeBytes = sz div bytesPerBitmapByte
          in Inr (emit (PersistRange heapBitsAddr numTypeBytes)
                   (write_bytes heapBitsAddr (replicate (unat numTypeBytes) 0) st)))"

section \<open>The arena undo log\<close>

text \<open>
  The undo-log fields of the arena header live in the store: the count \<^verbatim>\<open>numLogEntries\<close>
  (an \<^verbatim>\<open>int\<close>) at offset \<open>numLogEntries_off\<close> of the header, the array \<^verbatim>\<open>logs\<close> of
  \<^verbatim>\<open>maxLogEntries\<close> entries at offset \<open>logs_off\<close>, each entry a \<^verbatim>\<open>uintptr\<close> \<open>off\<close> followed by
  an \<^verbatim>\<open>int\<close> \<open>val\<close>. The addresses that the log protects are addresses inside the same arena.
\<close>

definition maxLogEntries :: u64 where
  "maxLogEntries = 2"

definition logEntrySize :: u64 where
  "logEntrySize = 16"

definition numLogEntries_addr :: "env \<Rightarrow> pArena \<Rightarrow> u64" where
  "numLogEntries_addr k pa = paddr pa + numLogEntries_off k"

definition logs_off_addr :: "env \<Rightarrow> pArena \<Rightarrow> u64 \<Rightarrow> u64" where
  "logs_off_addr k pa i = paddr pa + logs_off k + logEntrySize * i"

definition logs_val_addr :: "env \<Rightarrow> pArena \<Rightarrow> u64 \<Rightarrow> u64" where
  "logs_val_addr k pa i = logs_off_addr k pa i + 8"

definition logEntry :: "env \<Rightarrow> pArena \<Rightarrow> u64 \<Rightarrow> pmem \<Rightarrow> error + pmem" where
  "logEntry k pa addr st =
     (let off = addr - paddr pa
      in if off \<ge> size pa then Inl (Throw ''Invalid arena logging request'')
         else
           let ind = load64 (mem st) (numLogEntries_addr k pa)
           in if ind = maxLogEntries then Inl (Throw ''No more space in the arena to log values'')
              else
                let val = load64 (mem st) addr
                in if \<not> ind < maxLogEntries then Inl IndexOutOfRange
                   else
                     let st1 = write64 (logs_off_addr k pa ind) off st;
                         st2 = write64 (logs_val_addr k pa ind) val st1;
                         st3 = emit (PersistRange (logs_off_addr k pa ind) logEntrySize) st2;
                         st4 = write64 (numLogEntries_addr k pa) (ind + 1) st3
                     in Inr (emit (PersistRange (numLogEntries_addr k pa) intSize) st4))"

text \<open>
  The loop of \<open>revertLog\<close> reads the count again before every round and indexes \<^verbatim>\<open>logs\<close>
  with the loop counter.
\<close>

function revertLoop :: "env \<Rightarrow> pArena \<Rightarrow> u64 \<Rightarrow> pmem \<Rightarrow> error + pmem" where
  "revertLoop k pa i st =
     (if i <s load64 (mem st) (numLogEntries_addr k pa) then
        if \<not> i < maxLogEntries then Inl IndexOutOfRange
        else
          let addr = load64 (mem st) (logs_off_addr k pa i) + paddr pa;
              st1 = write64 addr (load64 (mem st) (logs_val_addr k pa i)) st;
              st2 = emit (PersistRange addr intSize) st1
          in revertLoop k pa (i + 1) st2
      else Inr st)"
  by pat_completeness auto
termination
proof (relation "measure (\<lambda>(k, pa, i, st). 2 - unat i)")
  show "wf (measure (\<lambda>(k :: env, pa :: pArena, i :: u64, st :: pmem). 2 - unat i))" by simp
next
  fix k :: env and pa :: pArena and i :: u64 and st x xa xb
  assume "\<not> \<not> i < maxLogEntries"
  then have "unat i < 2" by (simp add: maxLogEntries_def word_less_nat_alt)
  then have "unat (i + 1) = unat i + 1" by (simp add: unat_add_lem [THEN iffD1])
  with \<open>unat i < 2\<close> show "((k, pa, i + 1, xb), (k, pa, i, st)) \<in> measure (\<lambda>(k, pa, i, st). 2 - unat i)"
    by simp
qed

declare revertLoop.simps [simp del]

definition revertLog :: "env \<Rightarrow> pArena \<Rightarrow> pmem \<Rightarrow> error + pmem" where
  "revertLog k pa st =
     (if load64 (mem st) (numLogEntries_addr k pa) = 0 then Inr st
      else
        case revertLoop k pa 0 st of Inl e \<Rightarrow> Inl e | Inr st1 \<Rightarrow>
          Inr (emit (PersistRange (numLogEntries_addr k pa) intSize)
                (write64 (numLogEntries_addr k pa) 0 st1)))"

definition resetLog :: "env \<Rightarrow> pArena \<Rightarrow> pmem \<Rightarrow> error + pmem" where
  "resetLog k pa st =
     Inr (emit (PersistRange (numLogEntries_addr k pa) intSize)
           (write64 (numLogEntries_addr k pa) 0 st))"

text \<open>
  The sequence log, mutate, revert: the value at \<open>addr\<close> when \<open>logEntry\<close> is called, the
  value there after \<open>revertLog\<close>, and the count after \<open>revertLog\<close>. The mutation stores
  the 8-byte value \<open>v\<close> at \<open>addr\<close>.
\<close>

definition log_mutate_revert :: "env \<Rightarrow> pArena \<Rightarrow> u64 \<Rightarrow> u64 \<Rightarrow> pmem \<Rightarrow> error + (u64 \<times> u64 \<times> u64)" where
  "log_mutate_revert k pa addr v st =
     (case logEntry k pa addr st of Inl e \<Rightarrow> Inl e | Inr st1 \<Rightarrow>
      (case revertLog k pa (st1\<lparr>mem := store64 (mem st1) addr v\<rparr>) of Inl e \<Rightarrow> Inl e | Inr st3 \<Rightarrow>
         Inr (load64 (mem st) addr, load64 (mem st3) addr,
              load64 (mem st3) (numLogEntries_addr k pa))))"

text \<open>
  Two byte ranges, \<open>n\<close> bytes at \<open>a\<close> and \<open>m\<close> bytes at \<open>b\<close>, that share no byte (addresses
  wrap around at \<open>2^64\<close>).
\<close>

definition apart :: "u64 \<Rightarrow> nat \<Rightarrow> u64 \<Rightarrow> nat \<Rightarrow> bool" where
  "apart a n b m \<longleftrightarrow> n \<le> unat (b - a) \<and> m \<le> unat (a - b)"

text \<open>
  The cells of the undo log itself: the two entries, and with the count all the fields
  that \<open>logEntry\<close> and \<open>revertLog\<close> read and write. The header is laid out properly when
  the count shares no byte with the entries; an address is clear of the log when its 8
  bytes share no byte with any of these cells.
\<close>

definition log_cells :: "env \<Rightarrow> pArena \<Rightarrow> u64 list" where
  "log_cells k pa = [logs_off_addr k pa 0, logs_val_addr k pa 0, logs_off_addr k pa 1, logs_val_addr k pa 1]"

definition header_ok :: "env \<Rightarrow> pArena \<Rightarrow> bool" where
  "header_ok k pa \<longleftrightarrow> (\<forall>c \<in> set (log_cells k pa). apart (numLogEntries_addr k pa) 8 c 8)"

definition clear_of_log :: "env \<Rightarrow> pArena \<Rightarrow> u64 \<Rightarrow> bool" where
  "clear_of_log k pa a \<longleftrightarrow>
     (\<forall>c \<in> set (numLogEntries_addr k pa # log_cells k pa). apart a 8 c 8)"

text \<open>
  The sequence allocate, free, allocate again: the entry that the first allocation
  leaves in its slot and the entry that the second one leaves.
\<close>

definition alloc_free_alloc :: "env \<Rightarrow> mspan \<Rightarrow> mspan \<Rightarrow> pmem \<Rightarrow> error + (u32 \<times> u32)" where
  "alloc_free_alloc k s s' st =
     (case logSpanAlloc k s st of Inl e \<Rightarrow> Inl e | Inr st1 \<Rightarrow>
      (case logSpanFree k s st1 of Inl e \<Rightarrow> Inl e | Inr st2 \<Rightarrow>
       (case logSpanAlloc k s' st2 of Inl e \<Rightarrow> Inl e | Inr st3 \<Rightarrow>
          Inr (load32 (mem st1) (spanLogAddr k s), load32 (mem st3) (spanLogAddr k s')))))"

section \<open>Initialization of the persistent region\<close>

text \<open>
  The earliest source (\<^verbatim>\<open>PmallocInit\<close>, \<^verbatim>\<open>growPmemRegion\<close>). The global \<^verbatim>\<open>pmemInfo\<close> and the
  store make up the state; a slice is its base address and its length. \<^verbatim>\<open>size\<close> and
  \<^verbatim>\<open>offset\<close> are Go \<^verbatim>\<open>int\<close>s: 64-bit words read as two's complement, with a remainder that
  takes the sign of the dividend and a shift right that keeps the sign.
\<close>

record runtime =
  fname :: string
  initState :: u32
  spanBitmap :: "u64 \<times> u64"
  typeBitmap :: "u64 \<times> u64"
  startAddr :: u64
  endAddr :: u64
  pm :: pmem

definition initNotDone :: u32 where
  "initNotDone = 0"

definition initOngoing :: u32 where
  "initOngoing = 1"

definition initDone :: u32 where
  "initDone = 2"

definition logBytesPerPage :: u64 where
  "logBytesPerPage = 4"

definition pmemHdrMagic :: u64 where
  "pmemHdrMagic = 0xABCDCBA"

definition pmemHdrSize :: u64 where
  "pmemHdrSize = 16"

definition pmemInitSize :: u64 where
  "pmemInitSize = 64 * 1024 * 1024"

definition heapBytesPerPage :: "env \<Rightarrow> u64" where
  "heapBytesPerPage k = pageSize k div 32"

definition go_rem :: "u64 \<Rightarrow> u64 \<Rightarrow> u64" where
  "go_rem a b = word_of_int (sint a smod sint b)"

text \<open>
  Modelled from the spec: the runtime's \<^verbatim>\<open>round\<close> is not among the sources; it rounds its
  first argument up to a multiple of the second, a power of two.
\<close>

definition round_uintptr :: "u64 \<Rightarrow> u64 \<Rightarrow> u64" where
  "round_uintptr n a = (n + a - 1) AND NOT (a - 1)"

text \<open>
  \<^verbatim>\<open>growPmemRegion\<close> asks the heap for the region and hands the pages behind the reserved
  ones to the allocator as one free span; what the allocator does with them is not
  modelled beyond the event.
\<close>

definition growPmemRegion :: "env \<Rightarrow> u64 \<Rightarrow> u64 \<Rightarrow> pmem \<Rightarrow> u64 \<times> pmem" where
  "growPmemRegion k npages reservePages st =
     (let ask = push_bit (pageShift k) npages;
          st1 = emit (SysAlloc ask) st;
          (v, sz) = sysAlloc k ask
      in if v = 0 then (0, println ''Unable to reserve persistent memory heap'' st1)
         else if sz \<noteq> ask
         then (0, emit (SysFree v sz) (println ''Unable to reserve requested size'' st1))
         else
           let spanBase = v + push_bit (pageShift k) reservePages
           in (v, emit (FreeSpan spanBase (npages - reservePages)) st1))"

text \<open>The sizing of \<^verbatim>\<open>PmallocInit\<close> (its local variables, in the order of the source).\<close>

definition headerSize :: "env \<Rightarrow> u64 \<Rightarrow> u64 \<Rightarrow> u64" where
  "headerSize k sz offs =
     (let availSize = sz - offs;
          availPages = signed_drop_bit (pageShift k) availSize;
          heapTypeBitmapSize = availPages * heapBytesPerPage k;
          spanBitmapSize = availPages * logBytesPerPage
      in heapTypeBitmapSize + spanBitmapSize + pmemHdrSize)"

definition spanBitmapSize :: "env \<Rightarrow> u64 \<Rightarrow> u64 \<Rightarrow> u64" where
  "spanBitmapSize k sz offs = signed_drop_bit (pageShift k) (sz - offs) * logBytesPerPage"

definition reservePages :: "env \<Rightarrow> u64 \<Rightarrow> u64 \<Rightarrow> u64" where
  "reservePages k sz offs =
     (let reserveSize = offs + headerSize k sz offs
      in drop_bit (pageShift k) (round_uintptr reserveSize (pageSize k)))"

definition totalPages :: "env \<Rightarrow> u64 \<Rightarrow> u64" where
  "totalPages k sz = drop_bit (pageShift k) sz"

text \<open>
  The end of \<^verbatim>\<open>PmallocInit\<close>, common to the first run and to a restart: the two bitmaps
  become windows of at most \<open>2^28\<close> entries over the mapped region, the end address is
  set and the state becomes done. A longer window is a slice bound out of range: the
  panic is returned together with the state that the run has reached, since the header
  has been written by then.
\<close>

definition PmallocInit_finish ::
  "env \<Rightarrow> u64 \<Rightarrow> u64 \<Rightarrow> u64 \<Rightarrow> runtime \<Rightarrow> (error \<times> runtime) + (u64 \<times> runtime)" where
  "PmallocInit_finish k sz offs pmemMappedAddr rt =
     (let hdrAddr = pmemMappedAddr + offs;
          usablePages = totalPages k sz - reservePages k sz offs;
          spanBitsAddr = hdrAddr + 16
      in if usablePages > 2 ^ 28 then Inl (SliceOutOfRange, rt)
         else
           let rt1 = rt\<lparr>spanBitmap := (spanBitsAddr, usablePages)\<rparr>;
               typeEntries = push_bit (pageShift k) usablePages div 32;
               typeBitsAddr = spanBitsAddr + spanBitmapSize k sz offs
           in if typeEntries > 2 ^ 28 then Inl (SliceOutOfRange, rt1)
              else
                let rt2 = rt1\<lparr>typeBitmap := (typeBitsAddr, typeEntries)\<rparr>;
                    rt3 = rt2\<lparr>endAddr := startAddr rt2 + push_bit (pageShift k) usablePages - 1\<rparr>
                in Inr (pmemMappedAddr, rt3\<lparr>initState := initDone\<rparr>))"

text \<open>
  The messages of the source that span several lines are given with single spaces.
  The result is the mapped address, 0 for \<^verbatim>\<open>nil\<close>.
\<close>

definition PmallocInit ::
  "env \<Rightarrow> string \<Rightarrow> u64 \<Rightarrow> u64 \<Rightarrow> runtime \<Rightarrow> (error \<times> runtime) + (u64 \<times> runtime)" where
  "PmallocInit k fnm sz offs rt =
     (if (sz - offs) <s pmemInitSize \<or> go_rem sz pmemInitSize \<noteq> 0 then
        Inr (0, rt\<lparr>pm := println ''Persistent memory initialization requires a minimum of 64MB for initialization (size-offset) and size needs to be a multiple of 64MB'' (pm rt)\<rparr>)
      else if go_rem offs (pageSize k) \<noteq> 0 then
        Inr (0, rt\<lparr>pm := println ''Persistent memory initialization requires offset to be a multiple of page size'' (pm rt)\<rparr>)
      else if initState rt \<noteq> initNotDone then
        Inr (0, rt\<lparr>pm := println ''Persistent memory is already initialized or initialization is ongoing'' (pm rt)\<rparr>)
      else
        let rt1 = rt\<lparr>initState := initOngoing\<rparr>;
            rt2 = rt1\<lparr>fname := fnm\<rparr>;
            (pmemMappedAddr, st3) = growPmemRegion k (totalPages k sz) (reservePages k sz offs) (pm rt2)
        in if pmemMappedAddr = 0 then Inr (0, rt2\<lparr>initState := initNotDone, pm := st3\<rparr>)
           else
             let rt4 = rt2\<lparr>startAddr := pmemMappedAddr + push_bit (pageShift k) (reservePages k sz offs),
                           pm := st3\<rparr>;
                 hdrAddr = pmemMappedAddr + offs;
                 magicAddr = hdrAddr;
                 sizeAddr = hdrAddr + 8
             in if load64 (mem st3) magicAddr = pmemHdrMagic then
                  let st5 = println ''Not a first time initialization'' st3
                  in if load64 (mem st5) sizeAddr \<noteq> sz then
                       Inr (0, rt4\<lparr>initState := initNotDone,
                                   pm := emit (SysFree pmemMappedAddr sz)
                                           (println ''Initialization size does not match'' st5)\<rparr>)
                     else PmallocInit_finish k sz offs pmemMappedAddr (rt4\<lparr>pm := st5\<rparr>)
                else
                  let st5 = println ''First time initialization'' st3;
                      st6 = write64 sizeAddr sz st5;
                      st7 = write64 magicAddr pmemHdrMagic st6
                  in PmallocInit_finish k sz offs pmemMappedAddr (rt4\<lparr>pm := st7\<rparr>))"

text \<open>The state in which a run of \<^verbatim>\<open>PmallocInit\<close> ends, whether it returns or panics.\<close>

definition final_state :: "(error \<times> runtime) + (u64 \<times> runtime) \<Rightarrow> runtime" where
  "final_state r = (case r of Inl (e, rt) \<Rightarrow> rt | Inr (p, rt) \<Rightarrow> rt)"

text \<open>
  The store that the stores of a trace, applied in order, make of a store: the content
  of memory after a crash that cuts a run short is the replay of the events up to the
  crash.
\<close>

fun replay :: "event list \<Rightarrow> memory \<Rightarrow> memory" where
  "replay [] m = m"
| "replay (Store a bs # es) m = replay es (store_bytes m a bs)"
| "replay (AtomicStore a v # es) m = replay es (store32 m a v)"
| "replay (e # es) m = replay es m"

text \<open>
  A configuration without wrap-around: a non-negative offset that is a multiple of the
  page size, and a size that is a multiple of 64 MiB and exceeds the offset by at least
  64 MiB.
\<close>

definition valid_config :: "env \<Rightarrow> u64 \<Rightarrow> u64 \<Rightarrow> bool" where
  "valid_config k sz offs \<longleftrightarrow>
     0 \<le> sint offs \<and> 64 * 1024 * 1024 \<le> sint sz - sint offs
     \<and> 64 * 1024 * 1024 dvd sint sz \<and> 2 ^ pageShift k dvd sint offs"

text \<open>The two configuration checks at the head of \<^verbatim>\<open>PmallocInit\<close> pass.\<close>

definition config_ok :: "env \<Rightarrow> u64 \<Rightarrow> u64 \<Rightarrow> bool" where
  "config_ok k sz offs \<longleftrightarrow>
     \<not> ((sz - offs) <s pmemInitSize \<or> go_rem sz pmemInitSize \<noteq> 0) \<and> go_rem offs (pageSize k) = 0"

text \<open>
  What a first-time run that finds the region mapped at \<open>v\<close> adds to the trace: the
  request to the heap, the free span, the message, the store of the size and the store
  of the magic constant.
\<close>

definition first_time_events :: "env \<Rightarrow> u64 \<Rightarrow> u64 \<Rightarrow> u64 \<Rightarrow> event list" where
  "first_time_events k sz offs v =
     [SysAlloc (push_bit (pageShift k) (totalPages k sz)),
      FreeSpan (v + push_bit (pageShift k) (reservePages k sz offs))
               (totalPages k sz - reservePages k sz offs),
      Println ''First time initialization'',
      Store (v + offs + 8) (le_bytes 8 sz),
      Store (v + offs) (le_bytes 8 pmemHdrMagic)]"

section \<open>Concrete inputs\<close>

text \<open>
  One instance of the parameters, with the Go runtime's values on linux/amd64 for the page
  shift (13) and the largest small size (32 KiB), a 16-byte region header, and an arena
  header of 64 bytes whose undo-log fields sit at offsets 24 and 32. The first arena is
  mapped at \<open>0x100000\<close> and keeps its first page for metadata.
\<close>

definition arena0 :: pArena where
  "arena0 = \<lparr>paddr = 0x100010, mapAddr = 0x100000, size = 0x4000000, fileOffset = 0, offset = 16\<rparr>"

definition small_span :: mspan where
  "small_span = \<lparr>base = 0x104000, elemsize = 64, spanclass = 10, needzero = False,
                 memtype = 1, typIndex = 0, pArena = arena0\<rparr>"

definition huge_span :: mspan where
  "huge_span = \<lparr>base = 0x104000, elemsize = 0x3FFFFF84000, spanclass = 0, needzero = False,
                 memtype = 1, typIndex = 0, pArena = arena0\<rparr>"

definition amd64_env :: env where
  "amd64_env = \<lparr>pageShift = 13, maxSmallSize = 32768, pmemHeaderSize = 16, pArenaHeaderSize = 64,
                layout = (\<lambda>pa. (8192, size pa - 8192)), numLogEntries_off = 24, logs_off = 32,
                spanOf = (\<lambda>a. Some small_span), sysAlloc = (\<lambda>ask. (0x100000, ask))\<rparr>"

definition zero_pmem :: pmem where
  "zero_pmem = \<lparr>mem = (\<lambda>_. 0), trace = []\<rparr>"



definition stale_pmem :: pmem where
  "stale_pmem = \<lparr>mem = store64 (\<lambda>_. 0) 0x100018 5, trace = []\<rparr>"

text \<open>
  The same parameters with a heap that refuses every request; a runtime that has not
  been initialized, over an empty store and over a store whose header, at the address
  where the region will be mapped, carries the magic constant and the size 128 MiB.
\<close>

definition nomap_env :: env where
  "nomap_env = amd64_env\<lparr>sysAlloc := (\<lambda>ask. (0, 0))\<rparr>"

definition fresh_rt :: runtime where
  "fresh_rt = \<lparr>fname = [], initState = 0, spanBitmap = (0, 0), typeBitmap = (0, 0),
               startAddr = 0, endAddr = 0, pm = zero_pmem\<rparr>"

definition restart_rt :: runtime where
  "restart_rt = fresh_rt\<lparr>pm := \<lparr>mem = store64 (store64 (\<lambda>_. 0) 0x100000 0xABCDCBA) 0x100008 0x8000000,
                                 trace = []\<rparr>\<rparr>"

section \<open>Facts about the byte store\<close>

lemma length_le_bytes [simp]: "length (le_bytes n v) = n"
  by (simp add: le_bytes_def)

lemma length_load_bytes [simp]: "length (load_bytes m a n) = n"
  by (simp add: load_bytes_def)

lemma le_bytes_Suc: "le_bytes (Suc n) v = ucast v # le_bytes n (drop_bit 8 v)"
proof -
  have "[0..<Suc n] = 0 # map Suc [0..<n]"
    by (simp add: upt_conv_Cons map_Suc_upt del: upt_Suc)
  then show ?thesis
    by (simp add: le_bytes_def comp_def add.commute del: upt_Suc)
qed

lemma le_word_le_bytes: "(le_word (le_bytes n v) :: 'a::len word) = take_bit (8 * n) v"
proof (induction n arbitrary: v)
  case 0
  show ?case by (simp add: le_bytes_def)
next
  case (Suc n)
  show ?case
    unfolding le_bytes_Suc le_word.simps Suc
    by (rule bit_word_eqI) (auto simp: bit_simps)
qed

lemma unat_offset: "i < 2 ^ 64 \<Longrightarrow> unat ((a :: u64) + of_nat i - a) = i"
  by (simp add: unat_of_nat take_bit_nat_eq_self)

lemma load_store_bytes:
  assumes "length bs \<le> 2 ^ 64"
  shows "load_bytes (store_bytes m a bs) a (length bs) = bs"
proof (rule nth_equalityI)
  show "length (load_bytes (store_bytes m a bs) a (length bs)) = length bs" by simp
next
  fix i assume "i < length (load_bytes (store_bytes m a bs) a (length bs))"
  then have i: "i < length bs" by simp
  with assms have "unat (a + of_nat i - a) = i" by (intro unat_offset) simp
  with i show "load_bytes (store_bytes m a bs) a (length bs) ! i = bs ! i"
    by (simp add: load_bytes_def store_bytes_def)
qed

lemma load32_store32 [simp]: "load32 (store32 m a v) a = v"
  using load_store_bytes [of "le_bytes 4 v" m a]
  by (simp add: load32_def store32_def le_word_le_bytes take_bit_word_eq_self)

lemma load64_store64 [simp]: "load64 (store64 m a v) a = v"
  using load_store_bytes [of "le_bytes 8 v" m a]
  by (simp add: load64_def store64_def le_word_le_bytes take_bit_word_eq_self)

lemma load32_zero [simp]: "load32 (\<lambda>_. 0) a = 0"
  by (simp add: load32_def load_bytes_def upt_rec)

lemma load64_zero [simp]: "load64 (\<lambda>_. 0) a = 0"
  by (simp add: load64_def load_bytes_def upt_rec)

lemma pmem_simps [simp]:
  "mem (emit e st) = mem st"
  "mem (atomic_Store a v st) = store32 (mem st) a v"
  "trace (emit e st) = trace st @ [e]"
  "trace (atomic_Store a v st) = trace st @ [AtomicStore a v]"
  by (simp_all add: emit_def atomic_Store_def)

section \<open>The span allocation log: packed values\<close>

lemma small_bit:
  assumes "4 \<le> (c :: u8)"
  shows "\<exists>n. 2 \<le> n \<and> n < 8 \<and> bit c n"
proof (rule ccontr)
  assume "\<not> ?thesis"
  then have "c AND mask 2 = c"
    by (intro bit_word_eqI) (auto simp: bit_simps)
  moreover have "c AND mask 2 < 2 ^ 2"
    by (rule and_mask_less_size) (simp add: word_size)
  ultimately have "c < 4" by simp
  with assms show False by simp
qed

lemma small_nonzero:
  assumes "4 \<le> (c :: u8)"
  shows "(ucast (push_bit 2 (ucast c :: u64) OR x) :: u32) \<noteq> 0"
proof -
  from small_bit [OF assms] obtain n where n: "2 \<le> n" "n < 8" "bit c n" by blast
  then have "bit (ucast (push_bit 2 (ucast c :: u64) OR x) :: u32) (n + 2)"
    by (simp add: bit_simps)
  then show ?thesis by auto
qed

lemma large_bit:
  assumes "5 \<le> (n :: u64)" "n < 2 ^ 29 - 62"
  shows "\<exists>i < 29. bit (62 + n) i"
proof -
  have w: "62 + n = n + 62" by simp
  have un: "unat n < 2 ^ 29 - 62" "5 \<le> unat n"
    using assms by (simp_all add: word_less_nat_alt word_le_nat_alt)
  then have u: "unat (n + 62) = unat n + 62"
    by (subst unat_add_lem [THEN iffD1]) simp_all
  then have "n + 62 < 2 ^ 29" using un by (simp add: word_less_nat_alt)
  then have m: "(n + 62) AND mask 29 = n + 62" by (simp add: less_mask_eq)
  have "n + 62 \<noteq> 0" using u by (metis add_is_0 unat_0 zero_neq_numeral)
  then obtain i where i: "bit (n + 62) i" by (auto simp: bit_eq_iff)
  then have "bit ((n + 62) AND mask 29) i" by (simp only: m)
  then have "i < 29" by (simp add: bit_simps)
  with i show ?thesis unfolding w by blast
qed

lemma large_nonzero:
  assumes "5 \<le> (n :: u64)" "n < 2 ^ 29 - 62"
  shows "(ucast (push_bit 3 (62 + n) OR x) :: u32) \<noteq> 0"
proof -
  from large_bit [OF assms] obtain i where i: "i < 29" "bit (62 + n) i" by blast
  then have "bit (ucast (push_bit 3 (62 + n) OR x) :: u32) (i + 3)"
    by (simp add: bit_simps)
  then show ?thesis by auto
qed

lemma low2_upper_eq:
  fixes a b :: u32
  assumes "drop_bit 2 a = drop_bit 2 b" and "a AND 3 = b AND 3"
  shows "a = b"
proof (rule bit_word_eqI)
  fix n assume "n < LENGTH(32)"
  show "bit a n = bit b n"
  proof (cases "n < 2")
    case True
    have "bit (a AND mask 2) n = bit (b AND mask 2) n"
      using assms(2) by (simp add: mask_eq_exp_minus_1)
    with True show ?thesis by (simp add: bit_simps)
  next
    case False
    then obtain m where n: "n = 2 + m" by (metis le_Suc_ex not_less)
    have "bit (drop_bit 2 a) m = bit (drop_bit 2 b) m" using assms(1) by simp
    then show ?thesis by (simp add: bit_simps n)
  qed
qed

lemma drop_bit_1_of_2:
  fixes a b :: u32
  assumes "drop_bit 2 a \<noteq> drop_bit 2 b"
  shows "drop_bit 1 a \<noteq> drop_bit 1 b"
proof
  assume "drop_bit 1 a = drop_bit 1 b"
  then have "drop_bit 1 (drop_bit 1 a) = drop_bit 1 (drop_bit 1 b)" by simp
  then have "drop_bit 2 a = drop_bit 2 b" by (simp add: drop_bit_drop_bit numeral_2_eq_2)
  with assms show False by simp
qed

lemma logSpanAlloc_entry:
  assumes "logSpanAlloc k s st = Inr st1"
  shows "load32 (mem st1) (spanLogAddr k s) = spanLogValue k s"
proof (cases "load32 (mem st) (spanLogAddr k s) \<noteq> 0
               \<and> load32 (mem st) (spanLogAddr k s) AND 3 = spanLogValue k s AND 3")
  case True
  with assms have "drop_bit 2 (load32 (mem st) (spanLogAddr k s)) = drop_bit 2 (spanLogValue k s)"
    and "st1 = st"
    by (auto simp: logSpanAlloc_def Let_def split: if_splits)
  with True show ?thesis by (simp add: low2_upper_eq)
next
  case False
  with assms have "st1 = emit (FlushRange (spanLogAddr k s) 4)
                          (atomic_Store (spanLogAddr k s) (spanLogValue k s) st)"
    by (auto simp: logSpanAlloc_def Let_def split: if_splits)
  then show ?thesis by simp
qed

lemma spanLogValue_upper:
  assumes "spanclass s' = spanclass s" "elemsize s' = elemsize s"
  shows "drop_bit 2 (spanLogValue k s') = drop_bit 2 (spanLogValue k s)"
  using assms unfolding spanLogValue_def Let_def
  by (intro bit_word_eqI) (auto simp: bit_simps)

lemma spanLogValue_upper1:
  assumes "spanclass s' = spanclass s" "elemsize s' = elemsize s"
    and "(typIndex s' = 0) = (typIndex s = 0)"
  shows "drop_bit 1 (spanLogValue k s') = drop_bit 1 (spanLogValue k s)"
  using assms unfolding spanLogValue_def Let_def
  by (intro bit_word_eqI) (auto simp: bit_simps)

lemmas concrete_defs =
  amd64_env_def small_span_def huge_span_def arena0_def zero_pmem_def
  isNotPersistent_def isPersistent_def bytesPerBitmapByte_def spanBytesPerPage_def

text \<open>
  C1. A persistent span whose span-log slot already holds a non-zero value: when the
  stored value and the newly packed value differ above the two low bits (needs-zero bit
  and optimized-type flag), \<open>logSpanAlloc\<close> throws \<^verbatim>\<open>Logged span information mismatch\<close>;
  when they agree above the two low bits and in the two low bits, it returns the state
  as it was, with no store and no flush. The same holds of the earlier
  \<^verbatim>\<open>runtime/pmemLog.go\<close>, which compares all bits above the needs-zero bit.
\<close>

theorem logSpanAlloc_reuse:
  assumes "memtype s = isPersistent"
  shows "(let old = load32 (mem st) (spanLogAddr k s); new = spanLogValue k s in
            old \<noteq> 0 \<longrightarrow>
              (drop_bit 2 old \<noteq> drop_bit 2 new \<longrightarrow>
                 logSpanAlloc k s st = Inl (Throw ''Logged span information mismatch'')) \<and>
              (drop_bit 2 old = drop_bit 2 new \<and> old AND 3 = new AND 3 \<longrightarrow>
                 logSpanAlloc k s st = Inr st))
       \<and> (let old = load32 (mem st) (spanLogAddr0 k s); new = spanLogValue0 k s in
            old \<noteq> 0 \<longrightarrow>
              (drop_bit 2 old \<noteq> drop_bit 2 new \<longrightarrow>
                 logSpanAlloc0 k s st = Inl (Throw ''Logged span information mismatch'')) \<and>
              (drop_bit 2 old = drop_bit 2 new \<and> old AND 3 = new AND 3 \<longrightarrow>
                 logSpanAlloc0 k s st = Inr st))"
proof -
  have p: "memtype s \<noteq> isNotPersistent"
    using assms by (simp add: isPersistent_def isNotPersistent_def)
  have A: "let old = load32 (mem st) (spanLogAddr k s); new = spanLogValue k s in
            old \<noteq> 0 \<longrightarrow>
              (drop_bit 2 old \<noteq> drop_bit 2 new \<longrightarrow>
                 logSpanAlloc k s st = Inl (Throw ''Logged span information mismatch'')) \<and>
              (drop_bit 2 old = drop_bit 2 new \<and> old AND 3 = new AND 3 \<longrightarrow>
                 logSpanAlloc k s st = Inr st)"
    using p by (simp add: logSpanAlloc_def Let_def)
  have B: "let old = load32 (mem st) (spanLogAddr0 k s); new = spanLogValue0 k s in
            old \<noteq> 0 \<longrightarrow>
              (drop_bit 2 old \<noteq> drop_bit 2 new \<longrightarrow>
                 logSpanAlloc0 k s st = Inl (Throw ''Logged span information mismatch'')) \<and>
              (drop_bit 2 old = drop_bit 2 new \<and> old AND 3 = new AND 3 \<longrightarrow>
                 logSpanAlloc0 k s st = Inr st)"
    unfolding Let_def
  proof (intro impI conjI)
    assume nz: "load32 (mem st) (spanLogAddr0 k s) \<noteq> 0"
      and d: "drop_bit 2 (load32 (mem st) (spanLogAddr0 k s)) \<noteq> drop_bit 2 (spanLogValue0 k s)"
    from d have "drop_bit 1 (load32 (mem st) (spanLogAddr0 k s)) \<noteq> drop_bit 1 (spanLogValue0 k s)"
      by (rule drop_bit_1_of_2)
    with p nz show "logSpanAlloc0 k s st = Inl (Throw ''Logged span information mismatch'')"
      by (simp add: logSpanAlloc0_def Let_def)
  next
    assume nz: "load32 (mem st) (spanLogAddr0 k s) \<noteq> 0"
      and "drop_bit 2 (load32 (mem st) (spanLogAddr0 k s)) = drop_bit 2 (spanLogValue0 k s)
           \<and> load32 (mem st) (spanLogAddr0 k s) AND 3 = spanLogValue0 k s AND 3"
    then have "load32 (mem st) (spanLogAddr0 k s) = spanLogValue0 k s"
      using low2_upper_eq by blast
    with p nz show "logSpanAlloc0 k s st = Inr st"
      by (simp add: logSpanAlloc0_def Let_def)
  qed
  from A B show ?thesis by simp
qed

theorem logSpanAlloc_reuse_witness:
  "logSpanAlloc amd64_env small_span
     \<lparr>mem = store32 (\<lambda>_. 0) (spanLogAddr amd64_env small_span) 80, trace = []\<rparr>
     = Inl (Throw ''Logged span information mismatch'')
   \<and> logSpanAlloc amd64_env small_span
     \<lparr>mem = store32 (\<lambda>_. 0) (spanLogAddr amd64_env small_span) 40, trace = []\<rparr>
     = Inr \<lparr>mem = store32 (\<lambda>_. 0) (spanLogAddr amd64_env small_span) 40, trace = []\<rparr>"
proof -
  have p: "memtype small_span = isPersistent" by (simp add: concrete_defs)
  have v: "spanLogValue amd64_env small_span = 40"
    by (simp add: spanLogValue_def concrete_defs)
  show ?thesis
    using logSpanAlloc_reuse [OF p, of "\<lparr>mem = store32 (\<lambda>_. 0) (spanLogAddr amd64_env small_span) 80, trace = []\<rparr>" amd64_env]
      logSpanAlloc_reuse [OF p, of "\<lparr>mem = store32 (\<lambda>_. 0) (spanLogAddr amd64_env small_span) 40, trace = []\<rparr>" amd64_env]
    by (simp add: Let_def v)
qed

text \<open>
  C2, as stated: allocate, free, allocate again with a span of the same base address and
  the same span class. When the second span differs from the first only in carrying a
  type index, the first entry is 40, the second 42, and they differ in the
  optimized-type flag (bit 1), not only in the needs-zero bit (bit 0). When two large
  spans of span class 0 differ in their size, 5 pages and 6 pages, the entries are 536
  and 544 and differ in the page count.
\<close>

theorem realloc_entry_counterexample:
  "alloc_free_alloc amd64_env small_span (small_span\<lparr>typIndex := 7\<rparr>) zero_pmem = Inr (40, 42)
   \<and> alloc_free_alloc amd64_env (huge_span\<lparr>elemsize := 0xA000\<rparr>)
        (huge_span\<lparr>elemsize := 0xC000\<rparr>) zero_pmem = Inr (536, 544)"
  by (simp add: alloc_free_alloc_def logSpanFree_def logSpanAlloc_def Let_def spanLogAddr_def
      spanLogValue_def concrete_defs)

text \<open>
  C2, amended: after a first \<open>logSpanAlloc\<close> of a persistent span \<open>s\<close> that returns, freeing
  it and allocating a persistent span \<open>s'\<close> with the same base address in the same arena,
  the same span class and the same element size returns as well; the first entry is the
  packed value of \<open>s\<close>, the last one the packed value of \<open>s'\<close>, and the two are identical
  above the two low bits (needs-zero bit and optimized-type flag). When \<open>s\<close> and \<open>s'\<close>
  agree on whether they carry a type index, they are identical above the needs-zero bit.
\<close>

theorem realloc_entry:
  assumes "memtype s = isPersistent" and "memtype s' = isPersistent"
    and "base s' = base s" and "pArena s' = pArena s"
    and "spanclass s' = spanclass s" and "elemsize s' = elemsize s"
    and "logSpanAlloc k s st = Inr st1"
  shows "\<exists>e1 e3. alloc_free_alloc k s s' st = Inr (e1, e3)
           \<and> e1 = spanLogValue k s \<and> e3 = spanLogValue k s'
           \<and> drop_bit 2 e3 = drop_bit 2 e1
           \<and> ((typIndex s' = 0) = (typIndex s = 0) \<longrightarrow> drop_bit 1 e3 = drop_bit 1 e1)"
proof -
  have a: "spanLogAddr k s' = spanLogAddr k s"
    using assms(3,4) by (simp add: spanLogAddr_def)
  have p: "memtype s \<noteq> isNotPersistent" "memtype s' \<noteq> isNotPersistent"
    using assms(1,2) by (simp_all add: isPersistent_def isNotPersistent_def)
  have e1: "load32 (mem st1) (spanLogAddr k s) = spanLogValue k s"
    using assms(7) by (rule logSpanAlloc_entry)
  have "alloc_free_alloc k s s' st = Inr (spanLogValue k s, spanLogValue k s')"
    using p assms(7) e1
    by (simp add: alloc_free_alloc_def logSpanFree_def logSpanAlloc_def [of k s'] Let_def a)
  then show ?thesis
    using spanLogValue_upper [OF assms(5,6)] spanLogValue_upper1 [OF assms(5,6)] by simp
qed

theorem realloc_entry_witness:
  "alloc_free_alloc amd64_env small_span (small_span\<lparr>needzero := True, typIndex := 7\<rparr>) zero_pmem
     = Inr (40, 43) \<and> drop_bit 2 (43 :: u32) = drop_bit 2 40"
proof -
  let ?s' = "small_span\<lparr>needzero := True, typIndex := 7\<rparr>"
  let ?st1 = "emit (FlushRange (spanLogAddr amd64_env small_span) 4)
                (atomic_Store (spanLogAddr amd64_env small_span) 40 zero_pmem)"
  have h: "memtype small_span = isPersistent" "memtype ?s' = isPersistent"
    "base ?s' = base small_span" "pArena ?s' = pArena small_span"
    "spanclass ?s' = spanclass small_span" "elemsize ?s' = elemsize small_span"
    by (simp_all add: concrete_defs)
  have v: "spanLogValue amd64_env small_span = 40" "spanLogValue amd64_env ?s' = 43"
    by (simp_all add: spanLogValue_def concrete_defs)
  have r: "logSpanAlloc amd64_env small_span zero_pmem = Inr ?st1"
    by (simp add: logSpanAlloc_def Let_def v) (simp add: concrete_defs)
  from realloc_entry [OF h r] show ?thesis by (simp add: v)
qed

text \<open>
  C10, as stated: a persistent large span of \<open>2^29 - 62\<close> pages with span class 0 and a
  clear needs-zero flag occupies more than 5 pages, and its packed value is 0: the page
  count plus 62, shifted left by 3, is \<open>2^32\<close>, which the conversion to \<^verbatim>\<open>uint32\<close> cuts off.
\<close>

theorem spanLogValue_nonzero_counterexample:
  "maxSmallSize amd64_env < elemsize huge_span
   \<and> 5 \<le> drop_bit (pageShift amd64_env) (elemsize huge_span)
   \<and> memtype huge_span = isPersistent
   \<and> spanLogValue amd64_env huge_span = 0"
  by (simp add: spanLogValue_def concrete_defs)

text \<open>
  C10, amended: for a small span whose span class is at least 4, and for a large span
  occupying at least 5 and fewer than \<open>2^29 - 62\<close> pages, \<open>spanLogValue\<close> is not 0; hence
  the slot that a returning \<open>logSpanAlloc\<close> leaves is never the 0 that \<open>logSpanFree\<close>
  stores.
\<close>

theorem spanLogValue_nonzero:
  assumes "if maxSmallSize k < elemsize s
           then 5 \<le> drop_bit (pageShift k) (elemsize s)
                \<and> drop_bit (pageShift k) (elemsize s) < 2 ^ 29 - 62
           else 4 \<le> spanclass s"
  shows "spanLogValue k s \<noteq> 0
         \<and> (\<forall>st st'. logSpanAlloc k s st = Inr st' \<longrightarrow> load32 (mem st') (spanLogAddr k s) \<noteq> 0)
         \<and> (\<forall>st st'. logSpanFree k s st = Inr st' \<longrightarrow> load32 (mem st') (spanLogAddr k s) = 0)"
proof -
  have nz: "spanLogValue k s \<noteq> 0"
  proof (cases "maxSmallSize k < elemsize s")
    case True
    with assms show ?thesis
      by (simp add: spanLogValue_def Let_def or.assoc large_nonzero)
  next
    case False
    with assms show ?thesis
      by (simp add: spanLogValue_def Let_def or.assoc small_nonzero)
  qed
  moreover have "load32 (mem st') (spanLogAddr k s) = 0" if "logSpanFree k s st = Inr st'" for st st'
    using that by (auto simp: logSpanFree_def Let_def split: if_splits)
  ultimately show ?thesis by (auto simp: logSpanAlloc_entry)
qed

theorem spanLogValue_nonzero_witness:
  "4 \<le> spanclass small_span \<and> spanLogValue amd64_env small_span = 40
   \<and> spanLogValue amd64_env (huge_span\<lparr>elemsize := 0x3FFFFF82000\<rparr>) \<noteq> 0"
proof -
  have "spanLogValue amd64_env small_span = 40" by (simp add: spanLogValue_def concrete_defs)
  moreover have "spanLogValue amd64_env (huge_span\<lparr>elemsize := 0x3FFFFF82000\<rparr>) \<noteq> 0"
    using spanLogValue_nonzero [of amd64_env "huge_span\<lparr>elemsize := 0x3FFFFF82000\<rparr>"]
    by (simp add: concrete_defs)
  moreover have "4 \<le> spanclass small_span" by (simp add: concrete_defs)
  ultimately show ?thesis by simp
qed

section \<open>Facts about stores that share no byte\<close>

lemma store_bytes_other: "length bs \<le> unat (x - a) \<Longrightarrow> store_bytes m a bs x = m x"
  by (simp add: store_bytes_def)

lemma unat_neg: "w \<noteq> 0 \<Longrightarrow> unat (- w) = 2 ^ 64 - unat w" for w :: u64
  using unat_sub_if_size [of 0 w] by (simp add: word_size unat_eq_0)

lemma apart_sym: "apart a n b m \<Longrightarrow> apart b m a n"
  by (simp add: apart_def)

lemma apart_offset:
  assumes "apart a n b m" and "i < n"
  shows "m \<le> unat (a + of_nat i - b)"
proof (cases "a = b")
  case True
  with assms show ?thesis by (simp add: apart_def)
next
  case False
  then have nz: "a - b \<noteq> 0" by simp
  have e: "unat (b - a) = 2 ^ 64 - unat (a - b)"
    using unat_neg [OF nz] by simp
  from assms e have i: "i < 2 ^ 64 - unat (a - b)" by (simp add: apart_def)
  then have "unat (of_nat i :: u64) = i" by (simp add: unat_of_nat take_bit_nat_eq_self)
  with i have s: "unat ((a - b) + of_nat i) = unat (a - b) + i"
    by (simp add: unat_add_lem [THEN iffD1])
  have "a + of_nat i - b = (a - b) + of_nat i" by simp
  then have "unat (a + of_nat i - b) = unat (a - b) + i" by (simp only: s)
  then show ?thesis using assms by (simp add: apart_def)
qed

lemma load_bytes_store_bytes_apart:
  assumes "apart a n b (length bs)"
  shows "load_bytes (store_bytes m b bs) a n = load_bytes m a n"
  using apart_offset [OF assms] by (simp add: load_bytes_def store_bytes_other)

lemma load64_store_bytes_apart:
  "apart a 8 b (length bs) \<Longrightarrow> load64 (store_bytes m b bs) a = load64 m a"
  by (simp add: load64_def load_bytes_store_bytes_apart)

lemma load64_store64_apart:
  "apart a 8 b 8 \<Longrightarrow> load64 (store64 m b v) a = load64 m a"
  by (simp add: store64_def load64_store_bytes_apart)

lemma write_simps [simp]:
  "mem (write_bytes a bs st) = store_bytes (mem st) a bs"
  "trace (write_bytes a bs st) = trace st @ [Store a bs]"
  "mem (write64 a v st) = store64 (mem st) a v"
  "trace (write64 a v st) = trace st @ [Store a (le_bytes 8 v)]"
  "mem (println s st) = mem st"
  "trace (println s st) = trace st @ [Println s]"
  by (simp_all add: write_bytes_def write64_def store64_def println_def)

section \<open>Clearing heap bits\<close>

text \<open>
  C9, as stated: \<open>clearHeapBits\<close> on an address of a persistent span with size 40, which
  is not a multiple of 32. The call does not fail: it clears one byte (40 / 32 rounds
  down to 1) and persists it.
\<close>

theorem clearHeapBits_counterexample:
  "\<not> 32 dvd (40 :: nat) \<and>
   clearHeapBits amd64_env 0x104000 40 \<lparr>mem = (\<lambda>_. 255), trace = []\<rparr>
     = Inr \<lparr>mem = store_bytes (\<lambda>_. 255) 0x100150 [0],
            trace = [Store 0x100150 [0], PersistRange 0x100150 1]\<rparr>"
  by (simp add: clearHeapBits_def pmemHeapBitsAddr0_def Let_def write_bytes_def emit_def concrete_defs)

text \<open>
  C9, amended: for every address owned by a persistent span and every size (no check is
  made that the size is a multiple of 32; the quotient rounds down), \<open>clearHeapBits\<close>
  returns, sets exactly the \<open>size div 32\<close> bytes that start at the type-bitmap log address
  of \<open>addr\<close> to 0, leaves every other byte as it was, and persists exactly that range.
\<close>

theorem clearHeapBits_zero_fill:
  assumes "spanOf k addr = Some sp" and "memtype sp = isPersistent"
  shows "\<exists>st'. clearHeapBits k addr sz st = Inr st'
           \<and> (\<forall>x. mem st' x = (if unat (x - pmemHeapBitsAddr0 k addr (pArena sp)) < unat sz div 32
                                then 0 else mem st x))
           \<and> trace st' = trace st @ [Store (pmemHeapBitsAddr0 k addr (pArena sp)) (replicate (unat sz div 32) 0),
                                      PersistRange (pmemHeapBitsAddr0 k addr (pArena sp)) (sz div 32)]"
proof -
  have n: "unat (sz div 32) = unat sz div 32" by (simp add: unat_div)
  show ?thesis
    using assms by (simp add: clearHeapBits_def Let_def bytesPerBitmapByte_def n store_bytes_def)
qed

theorem clearHeapBits_zero_fill_witness:
  "\<exists>st'. clearHeapBits amd64_env 0x104000 64 \<lparr>mem = (\<lambda>_. 255), trace = []\<rparr> = Inr st'
     \<and> mem st' 0x100150 = 0 \<and> mem st' 0x100151 = 0 \<and> mem st' 0x100152 = 255 \<and> mem st' 0x100140 = 255"
proof -
  have a: "pmemHeapBitsAddr0 amd64_env 0x104000 (pArena small_span) = 0x100150"
    by (simp add: pmemHeapBitsAddr0_def concrete_defs)
  have h: "spanOf amd64_env 0x104000 = Some small_span" "memtype small_span = isPersistent"
    by (simp_all add: concrete_defs)
  from clearHeapBits_zero_fill [OF h, of 64 "\<lparr>mem = (\<lambda>_. 255), trace = []\<rparr>"]
  obtain st' where "clearHeapBits amd64_env 0x104000 64 \<lparr>mem = (\<lambda>_. 255), trace = []\<rparr> = Inr st'"
    and m: "\<forall>x. mem st' x = (if unat (x - 0x100150) < unat (64 :: u64) div 32 then 0 else 255)"
    unfolding a by auto
  moreover have "mem st' 0x100150 = 0" "mem st' 0x100151 = 0" "mem st' 0x100152 = 255" "mem st' 0x100140 = 255"
    by (simp_all add: m)
  ultimately show ?thesis by blast
qed

section \<open>The optimized descriptor record\<close>












section \<open>Reverting the undo log\<close>

lemma sless_small [simp]:
  "(0 :: u64) <s 1" "\<not> (1 :: u64) <s 1" "(0 :: u64) <s 2" "(1 :: u64) <s 2" "\<not> (2 :: u64) <s 2"
  by (simp_all add: word_sless_alt)

lemma apart_comm: "apart a n b m \<longleftrightarrow> apart b m a n"
  by (auto simp: apart_def)

lemma log_cells_apart:
  "apart (logs_off_addr k pa 0) 8 (logs_val_addr k pa 0) 8"
  "apart (logs_off_addr k pa 0) 8 (logs_off_addr k pa 1) 8"
  "apart (logs_off_addr k pa 0) 8 (logs_val_addr k pa 1) 8"
  "apart (logs_val_addr k pa 0) 8 (logs_off_addr k pa 1) 8"
  "apart (logs_val_addr k pa 0) 8 (logs_val_addr k pa 1) 8"
  "apart (logs_off_addr k pa 1) 8 (logs_val_addr k pa 1) 8"
  by (simp_all add: apart_def logs_off_addr_def logs_val_addr_def logEntrySize_def)

lemma logEntry_ok:
  assumes "addr - paddr pa < size pa"
    and "load64 (mem st) (numLogEntries_addr k pa) < 2"
  shows "\<exists>st'. logEntry k pa addr st = Inr st' \<and>
     mem st' = store64 (store64 (store64 (mem st)
        (logs_off_addr k pa (load64 (mem st) (numLogEntries_addr k pa))) (addr - paddr pa))
        (logs_val_addr k pa (load64 (mem st) (numLogEntries_addr k pa))) (load64 (mem st) addr))
        (numLogEntries_addr k pa) (load64 (mem st) (numLogEntries_addr k pa) + 1)"
  using assms by (auto simp: logEntry_def Let_def maxLogEntries_def not_le)

lemma revert_one:
  fixes m :: memory
  assumes h: "header_ok k pa" and c: "clear_of_log k pa addr"
    and m: "load64 m (numLogEntries_addr k pa) = 1"
      "load64 m (logs_off_addr k pa 0) = addr - paddr pa"
      "load64 m (logs_val_addr k pa 0) = val"
  shows "\<exists>st'. revertLog k pa \<lparr>mem = m, trace = tr\<rparr> = Inr st'
            \<and> load64 (mem st') addr = val \<and> load64 (mem st') (numLogEntries_addr k pa) = 0"
proof -
  let ?N = "numLogEntries_addr k pa"
  from c have a: "apart addr 8 ?N 8" "apart ?N 8 addr 8"
    by (simp_all add: clear_of_log_def apart_comm [of ?N])
  have l1: "revertLoop k pa 1 st = Inr st" if "load64 (mem st) ?N = 1" for st
    using that by (subst revertLoop.simps) simp
  have l0: "revertLoop k pa 0 \<lparr>mem = m, trace = tr\<rparr>
      = Inr (emit (PersistRange addr intSize) (write64 addr val \<lparr>mem = m, trace = tr\<rparr>))"
    apply (subst revertLoop.simps)
    apply (simp add: m maxLogEntries_def Let_def)
    apply (rule l1)
    apply (simp add: load64_store64_apart a m)
    done
  show ?thesis
    by (simp add: revertLog_def m l0 load64_store64_apart a)
qed

lemma revert_two:
  fixes m :: memory
  assumes h: "header_ok k pa" and c: "clear_of_log k pa addr"
    and c0: "clear_of_log k pa (off0 + paddr pa)"
    and m: "load64 m (numLogEntries_addr k pa) = 2"
      "load64 m (logs_off_addr k pa 0) = off0"
      "load64 m (logs_off_addr k pa 1) = addr - paddr pa"
      "load64 m (logs_val_addr k pa 1) = val"
  shows "\<exists>st'. revertLog k pa \<lparr>mem = m, trace = tr\<rparr> = Inr st'
            \<and> load64 (mem st') addr = val \<and> load64 (mem st') (numLogEntries_addr k pa) = 0"
proof -
  let ?N = "numLogEntries_addr k pa"
  let ?a0 = "off0 + paddr pa"
  let ?v0 = "load64 m (logs_val_addr k pa 0)"
  from c have a: "apart addr 8 ?N 8" "apart ?N 8 addr 8"
    by (simp_all add: clear_of_log_def apart_comm [of ?N])
  from c0 have a0: "apart ?N 8 ?a0 8" "apart (logs_off_addr k pa 1) 8 ?a0 8"
    "apart (logs_val_addr k pa 1) 8 ?a0 8"
    by (simp_all add: clear_of_log_def log_cells_def apart_comm [of _ _ ?a0])
  have l2: "revertLoop k pa 2 st = Inr st" if "load64 (mem st) ?N = 2" for st
    using that by (subst revertLoop.simps) simp
  have l1: "revertLoop k pa 1 st
      = Inr (emit (PersistRange addr intSize) (write64 addr val st))"
    if "load64 (mem st) ?N = 2" "load64 (mem st) (logs_off_addr k pa 1) = addr - paddr pa"
       "load64 (mem st) (logs_val_addr k pa 1) = val" for st
    apply (subst revertLoop.simps)
    apply (simp add: that maxLogEntries_def Let_def)
    apply (rule l2)
    apply (simp add: load64_store64_apart a that)
    done
  have l0: "revertLoop k pa 0 \<lparr>mem = m, trace = tr\<rparr>
      = Inr (emit (PersistRange addr intSize) (write64 addr val
          (emit (PersistRange ?a0 intSize) (write64 ?a0 ?v0 \<lparr>mem = m, trace = tr\<rparr>))))"
    apply (subst revertLoop.simps)
    apply (simp add: m maxLogEntries_def Let_def)
    apply (rule l1)
    apply (simp_all add: load64_store64_apart a0 m)
    done
  show ?thesis
    by (simp add: revertLog_def m l0 load64_store64_apart a)
qed

lemma less_2_cases: "(w :: u64) < 2 \<Longrightarrow> w = 0 \<or> w = 1"
proof -
  assume "w < 2"
  then have "unat w < 2" by (simp add: word_less_nat_alt)
  then have "unat w = 0 \<or> unat w = 1" by arith
  then show ?thesis by (auto simp: word_unat_eq_iff)
qed

lemma pmem_mem_update: "st\<lparr>mem := m\<rparr> = \<lparr>mem = m, trace = trace st\<rparr>"
  by (cases st) simp

text \<open>
  C7, amended: for an arena whose header is laid out properly and whose undo log has a
  free slot, let \<open>addr\<close> be an in-arena address whose 8 bytes are clear of the undo log's
  own fields (and, when one entry is already pending, let the target of that entry be
  clear of them too). After \<open>logEntry addr\<close>, any store of an 8-byte value at \<open>addr\<close> and
  \<open>revertLog\<close>, the value at \<open>addr\<close> is the one captured by \<open>logEntry\<close> and the count is 0.
\<close>

theorem revertLog_restores:
  assumes "addr - paddr pa < size pa"
    and "load64 (mem st) (numLogEntries_addr k pa) < 2"
    and "header_ok k pa" and "clear_of_log k pa addr"
    and "load64 (mem st) (numLogEntries_addr k pa) = 1 \<longrightarrow>
           clear_of_log k pa (load64 (mem st) (logs_off_addr k pa 0) + paddr pa)"
  shows "log_mutate_revert k pa addr v st = Inr (load64 (mem st) addr, load64 (mem st) addr, 0)"
proof -
  let ?N = "numLogEntries_addr k pa"
  let ?n = "load64 (mem st) ?N"
  let ?O0 = "logs_off_addr k pa 0" let ?V0 = "logs_val_addr k pa 0"
  let ?O1 = "logs_off_addr k pa 1" let ?V1 = "logs_val_addr k pa 1"
  let ?val = "load64 (mem st) addr"
  from logEntry_ok [OF assms(1,2)] obtain st1 where
    st1: "logEntry k pa addr st = Inr st1"
    and m1: "mem st1 = store64 (store64 (store64 (mem st)
        (logs_off_addr k pa ?n) (addr - paddr pa)) (logs_val_addr k pa ?n) ?val) ?N (?n + 1)"
    by blast
  from assms(3) have hN: "apart ?N 8 ?O0 8" "apart ?N 8 ?V0 8" "apart ?N 8 ?O1 8" "apart ?N 8 ?V1 8"
    by (simp_all add: header_ok_def log_cells_def)
  from assms(4) have hA: "apart addr 8 ?N 8" "apart addr 8 ?O0 8" "apart addr 8 ?V0 8"
    "apart addr 8 ?O1 8" "apart addr 8 ?V1 8"
    by (simp_all add: clear_of_log_def log_cells_def)
  note ap = hN hA log_cells_apart [of k pa] hN [THEN apart_comm [THEN iffD1]]
    hA [THEN apart_comm [THEN iffD1]] log_cells_apart [of k pa, THEN apart_comm [THEN iffD1]]
  let ?m2 = "store64 (mem st1) addr v"
  from less_2_cases [OF assms(2)] have
    "\<exists>st3. revertLog k pa \<lparr>mem = ?m2, trace = trace st1\<rparr> = Inr st3
        \<and> load64 (mem st3) addr = ?val \<and> load64 (mem st3) ?N = 0"
  proof
    assume n: "?n = 0"
    show ?thesis
    proof (rule revert_one [OF assms(3,4)])
      show "load64 ?m2 ?N = 1" by (simp add: m1 n load64_store64_apart ap)
      show "load64 ?m2 ?O0 = addr - paddr pa" by (simp add: m1 n load64_store64_apart ap)
      show "load64 ?m2 ?V0 = ?val" by (simp add: m1 n load64_store64_apart ap)
    qed
  next
    assume n: "?n = 1"
    with assms(5) have c0: "clear_of_log k pa (load64 (mem st) ?O0 + paddr pa)" by simp
    show ?thesis
    proof (rule revert_two [OF assms(3,4) c0])
      show "load64 ?m2 ?N = 2" by (simp add: m1 n load64_store64_apart ap)
      show "load64 ?m2 ?O0 = load64 (mem st) ?O0" by (simp add: m1 n load64_store64_apart ap)
      show "load64 ?m2 ?O1 = addr - paddr pa" by (simp add: m1 n load64_store64_apart ap)
      show "load64 ?m2 ?V1 = ?val" by (simp add: m1 n load64_store64_apart ap)
    qed
  qed
  then show ?thesis
    by (auto simp: log_mutate_revert_def st1 pmem_mem_update)
qed

lemmas undo_defs =
  numLogEntries_addr_def logs_off_addr_def logs_val_addr_def logEntrySize_def maxLogEntries_def
  intSize_def

text \<open>
  C7, as stated: the address \<open>0x100038\<close> lies inside the arena (offset \<open>0x28\<close> of the
  header, below the arena size) and is the \<open>val\<close> field of the first undo-log entry.
  \<open>logEntry\<close> captures the value 0 there, the mutation stores 99, and \<open>revertLog\<close> copies
  the entry's \<open>val\<close>, which now is 99, onto itself: the value at the address stays 99.
\<close>

theorem revertLog_restores_counterexample:
  "0x100038 - paddr arena0 < size arena0
   \<and> log_mutate_revert amd64_env arena0 0x100038 99 zero_pmem = Inr (0, 99, 0)"
  by (simp add: log_mutate_revert_def logEntry_def revertLog_def Let_def revertLoop.simps
      undo_defs concrete_defs load64_store64_apart apart_def word_sless_alt)

theorem revertLog_restores_witness:
  "log_mutate_revert amd64_env arena0 0x100018 99 stale_pmem = Inr (5, 5, 0)"
proof -
  have h: "0x100018 - paddr arena0 < size arena0"
    "header_ok amd64_env arena0" "clear_of_log amd64_env arena0 0x100018"
    by (simp_all add: header_ok_def clear_of_log_def log_cells_def apart_def undo_defs concrete_defs)
  have n: "load64 (mem stale_pmem) (numLogEntries_addr amd64_env arena0) = 0"
    by (simp add: stale_pmem_def undo_defs concrete_defs load64_store64_apart apart_def)
  have v: "load64 (mem stale_pmem) 0x100018 = 5"
    by (simp add: stale_pmem_def)
  from revertLog_restores [of "0x100018" arena0 stale_pmem amd64_env 99] h n v
  show ?thesis by simp
qed

section \<open>Initialization: configuration checks, restart, first run\<close>

lemma smod_eq_0_iff: "a smod b = 0 \<longleftrightarrow> b dvd a" for a b :: int
proof -
  have "a smod b = 0 \<longleftrightarrow> a = 0 \<or> \<bar>a\<bar> mod \<bar>b\<bar> = 0"
    by (auto simp: signed_modulo_int_def sgn_if)
  also have "\<dots> \<longleftrightarrow> \<bar>b\<bar> dvd \<bar>a\<bar>" by (auto simp: dvd_eq_mod_eq_0)
  finally show ?thesis by simp
qed

lemma go_rem_dvd:
  assumes "0 < sint b"
  shows "go_rem a b \<noteq> 0 \<longleftrightarrow> \<not> sint b dvd sint a"
proof -
  let ?r = "sint a smod sint b"
  have "?r \<in> {- \<bar>sint b\<bar> + 1..\<bar>sint b\<bar> - 1}"
    using assms by (intro smod_int_range) simp
  moreover have "sint b < 2 ^ 63" using sint_lt [of b] by simp
  ultimately have r: "- (2 ^ 63) \<le> ?r" "?r < 2 ^ 63" using assms by auto
  have "sint (word_of_int ?r :: u64) = ?r"
    using r by (simp add: sint_sbintrunc' signed_take_bit_int_eq_self)
  then have "go_rem a b = 0 \<longleftrightarrow> ?r = 0"
    by (metis go_rem_def sint_0 word_of_int_0)
  then show ?thesis by (simp add: smod_eq_0_iff)
qed

lemma sint_pmemInitSize: "sint pmemInitSize = 64 * 1024 * 1024"
  by (simp add: pmemInitSize_def)

lemma sint_pageSize: "pageShift k < 63 \<Longrightarrow> sint (pageSize k) = 2 ^ pageShift k"
proof -
  assume n: "pageShift k < 63"
  have lt: "(2 :: int) ^ pageShift k < 2 ^ 63"
    using n by (intro power_strict_increasing) simp_all
  have ge: "- (2 ^ 63) \<le> (2 :: int) ^ pageShift k"
    by (rule order_trans [of _ 0]) simp_all
  have "sint (word_of_int (2 ^ pageShift k) :: u64) = signed_take_bit (LENGTH(64) - 1) (2 ^ pageShift k)"
    by (rule sint_sbintrunc')
  also have "\<dots> = 2 ^ pageShift k"
    using lt ge by (simp add: signed_take_bit_int_eq_self)
  finally show ?thesis
    by (simp add: pageSize_def push_bit_eq_mult)
qed

lemma config_ok_iff:
  assumes "pageShift k < 63"
  shows "config_ok k sz offs \<longleftrightarrow>
     64 * 1024 * 1024 \<le> sint (sz - offs) \<and> 64 * 1024 * 1024 dvd sint sz
     \<and> 2 ^ pageShift k dvd sint offs"
proof -
  have a: "go_rem sz pmemInitSize \<noteq> 0 \<longleftrightarrow> \<not> 64 * 1024 * 1024 dvd sint sz"
    using go_rem_dvd [of pmemInitSize sz] by (simp add: sint_pmemInitSize)
  have b: "go_rem offs (pageSize k) \<noteq> 0 \<longleftrightarrow> \<not> 2 ^ pageShift k dvd sint offs"
    using go_rem_dvd [of "pageSize k" offs] by (simp add: sint_pageSize [OF assms])
  show ?thesis
    using a b by (auto simp: config_ok_def word_sless_alt sint_pmemInitSize)
qed

lemma println_trace: "println msg st = st\<lparr>trace := trace st @ [Println msg]\<rparr>"
  by (simp add: println_def emit_def)

lemma sint_diff_no_wrap:
  fixes a b :: u64
  assumes "- (2 ^ 63) \<le> sint a - sint b" and "sint a - sint b < 2 ^ 63"
  shows "sint (a - b) = sint a - sint b"
proof -
  have "sint (a - b) = signed_take_bit (LENGTH(64) - 1) (sint a - sint b)"
    by (rule sint_word_diff)
  also have "\<dots> = sint a - sint b"
    using assms by (simp add: signed_take_bit_int_eq_self)
  finally show ?thesis .
qed

text \<open>
  C5, as stated: size \<open>-2^63\<close> and offset 8192. The integer difference is far below
  64 MiB, but the Go difference wraps around to \<open>2^63 - 8192\<close>, the size is a multiple of
  64 MiB and the offset a multiple of the page size, so both checks pass. With a heap
  that refuses the request \<open>PmallocInit\<close> returns nil after it has set the file name and
  asked the heap for \<open>2^63\<close> bytes; with a heap that grants it the run goes on into the
  first-time initialization, writes the header of the mapped region and panics at the
  bitmap window with the initialization state left at ongoing.
\<close>

theorem PmallocInit_config_error_counterexample:
  "sint (0x8000000000000000 :: u64) - sint (8192 :: u64) < 64 * 1024 * 1024
   \<and> PmallocInit nomap_env ''pmem'' 0x8000000000000000 8192 fresh_rt
       = Inr (0, fresh_rt\<lparr>fname := ''pmem'',
                pm := \<lparr>mem = (\<lambda>_. 0),
                       trace = [SysAlloc 0x8000000000000000,
                                Println ''Unable to reserve persistent memory heap'']\<rparr>\<rparr>)
   \<and> map_sum fst fst (PmallocInit amd64_env ''pmem'' 0x8000000000000000 8192 fresh_rt)
       = Inl SliceOutOfRange
   \<and> initState (final_state (PmallocInit amd64_env ''pmem'' 0x8000000000000000 8192 fresh_rt))
       = initOngoing
   \<and> trace (pm (final_state (PmallocInit amd64_env ''pmem'' 0x8000000000000000 8192 fresh_rt)))
       = [SysAlloc 0x8000000000000000,
          FreeSpan 0x410000000102000 0x3DF7FFFFFFFFF,
          Println ''First time initialization'',
          Store 0x102008 [0, 0, 0, 0, 0, 0, 0, 0x80],
          Store 0x102000 [0xBA, 0xDC, 0xBC, 0x0A, 0, 0, 0, 0]]"
  by (simp add: PmallocInit_def PmallocInit_finish_def growPmemRegion_def totalPages_def
      reservePages_def spanBitmapSize_def headerSize_def round_uintptr_def pageSize_def
      heapBytesPerPage_def logBytesPerPage_def pmemHdrSize_def pmemHdrMagic_def go_rem_def
      pmemInitSize_def signed_modulo_int_def Let_def println_def emit_def write64_def
      write_bytes_def initNotDone_def initOngoing_def fresh_rt_def nomap_env_def
      final_state_def le_bytes_def upt_rec zero_pmem_def word_sless_alt concrete_defs)

text \<open>
  C5, amended: when the difference \<^verbatim>\<open>size - offset\<close> as Go computes it, a 64-bit \<^verbatim>\<open>int\<close> that
  wraps around, is below 64 MiB (which it is whenever the integer difference is below
  64 MiB and not below \<open>-2^63\<close>), or the size is not a multiple of 64 MiB, or the offset
  is not a multiple of the page size, \<open>PmallocInit\<close> returns nil and the state it returns
  is the state it was given with one message printed: \<^verbatim>\<open>pmemInfo\<close> (initialization state
  included) and the store are unchanged and the heap is not asked for a mapping.
\<close>

theorem PmallocInit_config_error:
  assumes "pageShift k < 63"
    and "sint (sz - offs) < 64 * 1024 * 1024
         \<or> (- (2 ^ 63) \<le> sint sz - sint offs \<and> sint sz - sint offs < 64 * 1024 * 1024)
         \<or> \<not> 64 * 1024 * 1024 dvd sint sz
         \<or> \<not> 2 ^ pageShift k dvd sint offs"
  shows "\<exists>msg. PmallocInit k fnm sz offs rt
           = Inr (0, rt\<lparr>pm := (pm rt)\<lparr>trace := trace (pm rt) @ [Println msg]\<rparr>\<rparr>)"
proof -
  have "sint (sz - offs) < 64 * 1024 * 1024"
    if "- (2 ^ 63) \<le> sint sz - sint offs" "sint sz - sint offs < 64 * 1024 * 1024"
    using that sint_diff_no_wrap [of sz offs] by simp
  with assms have "\<not> config_ok k sz offs" by (auto simp: config_ok_iff)
  then show ?thesis
    by (auto simp: config_ok_def PmallocInit_def println_trace)
qed

lemma grow_ok:
  assumes "sysAlloc k (push_bit (pageShift k) n) = (v, push_bit (pageShift k) n)" and "v \<noteq> 0"
  shows "growPmemRegion k n r st
     = (v, st\<lparr>trace := trace st @ [SysAlloc (push_bit (pageShift k) n),
                                     FreeSpan (v + push_bit (pageShift k) r) (n - r)]\<rparr>)"
  using assms by (simp add: growPmemRegion_def Let_def emit_def)

text \<open>
  C4, amended: when the checks pass, the state is not-done, the region is mapped at \<open>v\<close>
  and the header there carries the magic constant with a recorded size other than the
  requested one, \<open>PmallocInit\<close> frees the mapping (\<^verbatim>\<open>sysFree\<close> of \<open>v\<close> and the requested
  size), sets the initialization state back to not-done and returns nil. The store, the
  two bitmap windows and the end address are as before, while \<^verbatim>\<open>pmemInfo.fname\<close> and
  \<^verbatim>\<open>pmemInfo.startAddr\<close> keep the values assigned before the header was read.
\<close>

theorem PmallocInit_size_mismatch:
  assumes "config_ok k sz offs" and "initState rt = initNotDone"
    and "sysAlloc k (push_bit (pageShift k) (totalPages k sz))
           = (v, push_bit (pageShift k) (totalPages k sz))" and "v \<noteq> 0"
    and "load64 (mem (pm rt)) (v + offs) = pmemHdrMagic"
    and "load64 (mem (pm rt)) (v + offs + 8) \<noteq> sz"
  shows "PmallocInit k fnm sz offs rt
     = Inr (0, rt\<lparr>fname := fnm, initState := initNotDone,
                  startAddr := v + push_bit (pageShift k) (reservePages k sz offs),
                  pm := (pm rt)\<lparr>trace := trace (pm rt) @
                     [SysAlloc (push_bit (pageShift k) (totalPages k sz)),
                      FreeSpan (v + push_bit (pageShift k) (reservePages k sz offs))
                               (totalPages k sz - reservePages k sz offs),
                      Println ''Not a first time initialization'',
                      Println ''Initialization size does not match'',
                      SysFree v sz]\<rparr>\<rparr>)"
  using assms
  by (simp add: PmallocInit_def config_ok_def Let_def grow_ok println_trace emit_def)

lemma first_time_run:
  assumes "config_ok k sz offs" and "initState rt = initNotDone"
    and "sysAlloc k (push_bit (pageShift k) (totalPages k sz))
           = (v, push_bit (pageShift k) (totalPages k sz))" and "v \<noteq> 0"
    and "load64 (mem (pm rt)) (v + offs) \<noteq> pmemHdrMagic"
    and "totalPages k sz - reservePages k sz offs \<le> 2 ^ 28"
    and "push_bit (pageShift k) (totalPages k sz - reservePages k sz offs) div 32 \<le> 2 ^ 28"
  shows "PmallocInit k fnm sz offs rt
     = Inr (v, rt\<lparr>fname := fnm, initState := initDone,
                  spanBitmap := (v + offs + 16, totalPages k sz - reservePages k sz offs),
                  typeBitmap := (v + offs + 16 + spanBitmapSize k sz offs,
                     push_bit (pageShift k) (totalPages k sz - reservePages k sz offs) div 32),
                  startAddr := v + push_bit (pageShift k) (reservePages k sz offs),
                  endAddr := v + push_bit (pageShift k) (reservePages k sz offs)
                     + push_bit (pageShift k) (totalPages k sz - reservePages k sz offs) - 1,
                  pm := \<lparr>mem = store64 (store64 (mem (pm rt)) (v + offs + 8) sz) (v + offs) pmemHdrMagic,
                         trace = trace (pm rt) @ first_time_events k sz offs v\<rparr>\<rparr>)"
  using assms
  by (simp add: PmallocInit_def PmallocInit_finish_def config_ok_def Let_def grow_ok println_trace
      emit_def first_time_events_def write64_def write_bytes_def store64_def not_less)

lemma concrete_layout:
  "totalPages amd64_env 0x4000000 = 8192"
  "reservePages amd64_env 0x4000000 0 = 261"
  "spanBitmapSize amd64_env 0x4000000 0 = 32768"
  "config_ok amd64_env 0x4000000 0"
  by (simp_all add: totalPages_def reservePages_def spanBitmapSize_def headerSize_def
      round_uintptr_def pageSize_def heapBytesPerPage_def logBytesPerPage_def pmemHdrSize_def
      config_ok_def go_rem_def pmemInitSize_def signed_modulo_int_def Let_def concrete_defs)

lemma concrete_ps: "pageShift amd64_env = 13"
  by (simp add: concrete_defs)

lemma concrete_sysAlloc:
  "sysAlloc amd64_env (push_bit (pageShift amd64_env) (totalPages amd64_env 0x4000000))
     = (0x100000, push_bit (pageShift amd64_env) (totalPages amd64_env 0x4000000))"
  by (simp add: concrete_defs)

lemma pmem_full_update: "st\<lparr>mem := m, trace := tr\<rparr> = \<lparr>mem = m, trace = tr\<rparr>"
  by (cases st) simp

lemma finish_state:
  "PmallocInit_finish k sz offs p rt = Inr (p, final_state (PmallocInit_finish k sz offs p rt))
   \<or> PmallocInit_finish k sz offs p rt
       = Inl (SliceOutOfRange, final_state (PmallocInit_finish k sz offs p rt))"
  "pm (final_state (PmallocInit_finish k sz offs p rt)) = pm rt"
  by (simp_all add: PmallocInit_finish_def final_state_def Let_def)

lemma first_time_state:
  assumes "config_ok k sz offs" and "initState rt = initNotDone"
    and "sysAlloc k (push_bit (pageShift k) (totalPages k sz))
           = (v, push_bit (pageShift k) (totalPages k sz))" and "v \<noteq> 0"
    and "load64 (mem (pm rt)) (v + offs) \<noteq> pmemHdrMagic"
  shows "PmallocInit k fnm sz offs rt = Inr (v, final_state (PmallocInit k fnm sz offs rt))
         \<or> PmallocInit k fnm sz offs rt
            = Inl (SliceOutOfRange, final_state (PmallocInit k fnm sz offs rt))"
    and "pm (final_state (PmallocInit k fnm sz offs rt))
         = \<lparr>mem = store64 (store64 (mem (pm rt)) (v + offs + 8) sz) (v + offs) pmemHdrMagic,
            trace = trace (pm rt) @ first_time_events k sz offs v\<rparr>"
proof -
  let ?rt = "rt\<lparr>initState := initOngoing, fname := fnm,
                 startAddr := v + push_bit (pageShift k) (reservePages k sz offs),
                 pm := \<lparr>mem = store64 (store64 (mem (pm rt)) (v + offs + 8) sz) (v + offs) pmemHdrMagic,
                        trace = trace (pm rt) @ first_time_events k sz offs v\<rparr>\<rparr>"
  have r: "PmallocInit k fnm sz offs rt = PmallocInit_finish k sz offs v ?rt"
    using assms
    by (simp add: PmallocInit_def config_ok_def Let_def grow_ok println_trace emit_def
        first_time_events_def write64_def write_bytes_def store64_def pmem_full_update)
  show "PmallocInit k fnm sz offs rt = Inr (v, final_state (PmallocInit k fnm sz offs rt))
         \<or> PmallocInit k fnm sz offs rt
            = Inl (SliceOutOfRange, final_state (PmallocInit k fnm sz offs rt))"
    unfolding r by (rule finish_state(1))
  show "pm (final_state (PmallocInit k fnm sz offs rt))
         = \<lparr>mem = store64 (store64 (mem (pm rt)) (v + offs + 8) sz) (v + offs) pmemHdrMagic,
            trace = trace (pm rt) @ first_time_events k sz offs v\<rparr>"
    unfolding r by (simp add: finish_state(2))
qed

lemma replay_first_time:
  "replay (first_time_events k sz offs v) m
     = store64 (store64 m (v + offs + 8) sz) (v + offs) pmemHdrMagic"
  "replay (butlast (first_time_events k sz offs v)) m = store64 m (v + offs + 8) sz"
  by (simp_all add: first_time_events_def store64_def)

text \<open>
  C3. On a first-time initialization (checks passed, state not-done, region mapped at
  \<open>v\<close>, no magic constant at the header) \<open>PmallocInit\<close> ends, by returning \<open>v\<close> or, when a
  bitmap does not fit its window, by the panic at the window, in a state whose trace has
  gained the events \<open>E\<close>: they end with the store of the size at \<open>v + offset + 8\<close> followed
  by the store of the magic constant at \<open>v + offset\<close>, so the size is written first, and
  nothing is flushed or persisted (the source leaves that to be done). The store of
  that state is the replay of \<open>E\<close>, and its header holds the size and the magic
  constant. After a crash between the two writes the store is the replay of \<open>E\<close> without
  its last event: the header holds the size and no magic constant, and \<open>PmallocInit\<close>
  started on that store from a not-done state runs as a first-time initialization
  again and writes both fields.
\<close>

theorem PmallocInit_size_before_magic:
  assumes "config_ok k sz offs" and "initState rt = initNotDone"
    and "sysAlloc k (push_bit (pageShift k) (totalPages k sz))
           = (v, push_bit (pageShift k) (totalPages k sz))" and "v \<noteq> 0"
    and "load64 (mem (pm rt)) (v + offs) \<noteq> pmemHdrMagic"
  shows "let E = [SysAlloc (push_bit (pageShift k) (totalPages k sz)),
                  FreeSpan (v + push_bit (pageShift k) (reservePages k sz offs))
                           (totalPages k sz - reservePages k sz offs),
                  Println ''First time initialization'',
                  Store (v + offs + 8) (le_bytes 8 sz),
                  Store (v + offs) (le_bytes 8 pmemHdrMagic)];
             R = PmallocInit k fnm sz offs rt;
             rt' = final_state R;
             mc = replay (butlast E) (mem (pm rt))
         in (R = Inr (v, rt') \<or> R = Inl (SliceOutOfRange, rt'))
          \<and> (totalPages k sz - reservePages k sz offs \<le> 2 ^ 28
               \<and> push_bit (pageShift k) (totalPages k sz - reservePages k sz offs) div 32 \<le> 2 ^ 28
               \<longrightarrow> R = Inr (v, rt'))
          \<and> trace (pm rt') = trace (pm rt) @ E
          \<and> mem (pm rt') = replay E (mem (pm rt))
          \<and> load64 (mem (pm rt')) (v + offs + 8) = sz
          \<and> load64 (mem (pm rt')) (v + offs) = pmemHdrMagic
          \<and> load64 mc (v + offs + 8) = sz
          \<and> load64 mc (v + offs) \<noteq> pmemHdrMagic
          \<and> (\<forall>rt2. initState rt2 = initNotDone \<and> mem (pm rt2) = mc \<longrightarrow>
                trace (pm (final_state (PmallocInit k fnm sz offs rt2))) = trace (pm rt2) @ E
                \<and> load64 (mem (pm (final_state (PmallocInit k fnm sz offs rt2)))) (v + offs + 8) = sz
                \<and> load64 (mem (pm (final_state (PmallocInit k fnm sz offs rt2)))) (v + offs)
                    = pmemHdrMagic)"
proof -
  let ?E = "first_time_events k sz offs v"
  let ?R = "PmallocInit k fnm sz offs rt"
  have E: "[SysAlloc (push_bit (pageShift k) (totalPages k sz)),
            FreeSpan (v + push_bit (pageShift k) (reservePages k sz offs))
                     (totalPages k sz - reservePages k sz offs),
            Println ''First time initialization'',
            Store (v + offs + 8) (le_bytes 8 sz),
            Store (v + offs) (le_bytes 8 pmemHdrMagic)] = ?E"
    by (simp add: first_time_events_def)
  have ap: "apart (v + offs) 8 (v + offs + 8) 8" "apart (v + offs + 8) 8 (v + offs) 8"
    by (simp_all add: apart_def)
  have hdr: "load64 (store64 (store64 m (v + offs + 8) sz) (v + offs) pmemHdrMagic) (v + offs + 8) = sz"
    "load64 (store64 (store64 m (v + offs + 8) sz) (v + offs) pmemHdrMagic) (v + offs) = pmemHdrMagic"
    for m
    by (simp_all add: load64_store64_apart ap)
  note s = first_time_state [OF assms, of fnm]
  have c1: "?R = Inr (v, final_state ?R) \<or> ?R = Inl (SliceOutOfRange, final_state ?R)"
    by (rule s(1))
  have c2: "?R = Inr (v, final_state ?R)"
    if "totalPages k sz - reservePages k sz offs \<le> 2 ^ 28"
      "push_bit (pageShift k) (totalPages k sz - reservePages k sz offs) div 32 \<le> 2 ^ 28"
    using first_time_run [OF assms that, of fnm] by (simp add: final_state_def)
  have c3: "trace (pm (final_state ?R)) = trace (pm rt) @ ?E"
    and c4: "mem (pm (final_state ?R)) = replay ?E (mem (pm rt))"
    by (simp_all add: s(2) replay_first_time)
  have c5: "load64 (mem (pm (final_state ?R))) (v + offs + 8) = sz"
    and c6: "load64 (mem (pm (final_state ?R))) (v + offs) = pmemHdrMagic"
    by (simp_all add: s(2) hdr)
  have c7: "load64 (replay (butlast ?E) (mem (pm rt))) (v + offs + 8) = sz"
    by (simp add: replay_first_time)
  have c8: "load64 (replay (butlast ?E) (mem (pm rt))) (v + offs) \<noteq> pmemHdrMagic"
    using assms(5) by (simp add: replay_first_time load64_store64_apart ap)
  have c9: "trace (pm (final_state (PmallocInit k fnm sz offs rt2))) = trace (pm rt2) @ ?E
            \<and> load64 (mem (pm (final_state (PmallocInit k fnm sz offs rt2)))) (v + offs + 8) = sz
            \<and> load64 (mem (pm (final_state (PmallocInit k fnm sz offs rt2)))) (v + offs)
                = pmemHdrMagic"
    if "initState rt2 = initNotDone" "mem (pm rt2) = replay (butlast ?E) (mem (pm rt))" for rt2
  proof -
    have "load64 (mem (pm rt2)) (v + offs) \<noteq> pmemHdrMagic"
      using c8 that(2) by simp
    from first_time_state(2) [OF assms(1) that(1) assms(3,4) this, of fnm]
    show ?thesis by (simp add: hdr)
  qed
  from c1 c2 c3 c4 c5 c6 c7 c8 c9 show ?thesis
    unfolding Let_def E by blast
qed

theorem PmallocInit_size_before_magic_witness:
  "PmallocInit amd64_env ''pmem'' 0x4000000 0 fresh_rt
     = Inr (0x100000, final_state (PmallocInit amd64_env ''pmem'' 0x4000000 0 fresh_rt))
   \<and> trace (pm (final_state (PmallocInit amd64_env ''pmem'' 0x4000000 0 fresh_rt)))
     = [SysAlloc 0x4000000, FreeSpan 0x30A000 7931,
        Println ''First time initialization'',
        Store 0x100008 [0, 0, 0, 4, 0, 0, 0, 0],
        Store 0x100000 [0xBA, 0xDC, 0xBC, 0x0A, 0, 0, 0, 0]]
   \<and> load64 (mem (pm (final_state (PmallocInit amd64_env ''pmem'' 0x4000000 0 fresh_rt)))) 0x100008
     = 0x4000000
   \<and> load64 (mem (pm (final_state (PmallocInit amd64_env ''pmem'' 0x4000000 0 fresh_rt)))) 0x100000
     = 0xABCDCBA"
proof -
  have h: "initState fresh_rt = initNotDone" "(0x100000 :: u64) \<noteq> 0"
    "load64 (mem (pm fresh_rt)) (0x100000 + 0) \<noteq> pmemHdrMagic"
    "trace (pm fresh_rt) = []"
    by (simp_all add: fresh_rt_def initNotDone_def pmemHdrMagic_def zero_pmem_def)
  have b: "le_bytes 8 (0x4000000 :: u64) = [0, 0, 0, 4, 0, 0, 0, 0]"
    "le_bytes 8 (0xABCDCBA :: u64) = [0xBA, 0xDC, 0xBC, 0x0A, 0, 0, 0, 0]"
    by (simp_all add: le_bytes_def upt_rec)
  note T = PmallocInit_size_before_magic [OF concrete_layout(4) h(1) concrete_sysAlloc h(2,3),
      of "''pmem''", unfolded Let_def]
  note T2 = T [THEN conjunct2] note T3 = T2 [THEN conjunct2] note T4 = T3 [THEN conjunct2]
  note T5 = T4 [THEN conjunct2] note T6 = T5 [THEN conjunct2]
  from T2 [THEN conjunct1]
  have "PmallocInit amd64_env ''pmem'' 0x4000000 0 fresh_rt
     = Inr (0x100000, final_state (PmallocInit amd64_env ''pmem'' 0x4000000 0 fresh_rt))"
    by (simp add: concrete_layout concrete_ps)
  moreover from T3 [THEN conjunct1]
  have "trace (pm (final_state (PmallocInit amd64_env ''pmem'' 0x4000000 0 fresh_rt)))
     = [SysAlloc 0x4000000, FreeSpan 0x30A000 7931,
        Println ''First time initialization'',
        Store 0x100008 [0, 0, 0, 4, 0, 0, 0, 0],
        Store 0x100000 [0xBA, 0xDC, 0xBC, 0x0A, 0, 0, 0, 0]]"
    by (simp add: concrete_layout concrete_ps b h(4) pmemHdrMagic_def)
  moreover from T5 [THEN conjunct1]
  have "load64 (mem (pm (final_state (PmallocInit amd64_env ''pmem'' 0x4000000 0 fresh_rt)))) 0x100008
     = 0x4000000"
    by simp
  moreover from T6 [THEN conjunct1]
  have "load64 (mem (pm (final_state (PmallocInit amd64_env ''pmem'' 0x4000000 0 fresh_rt)))) 0x100000
     = 0xABCDCBA"
    by (simp add: pmemHdrMagic_def)
  ultimately show ?thesis by blast
qed

text \<open>
  C4, as stated: a restart over a header that records 128 MiB, with 64 MiB requested.
  \<open>PmallocInit\<close> returns nil with the state not-done, but the file name and the start
  address of \<^verbatim>\<open>pmemInfo\<close>, empty and 0 before the call, are \<open>''pmem''\<close> and \<open>0x30A000\<close> after
  it: state other than the initialization state has changed.
\<close>

theorem PmallocInit_size_mismatch_counterexample:
  "fname restart_rt = [] \<and> startAddr restart_rt = 0 \<and>
   map_sum id (\<lambda>(p, rt'). (p, initState rt', fname rt', startAddr rt'))
     (PmallocInit amd64_env ''pmem'' 0x4000000 0 restart_rt)
   = Inr (0, 0, ''pmem'', 0x30A000)"
proof -
  have m: "load64 (mem (pm restart_rt)) 0x100000 = pmemHdrMagic"
    "load64 (mem (pm restart_rt)) 0x100008 \<noteq> 0x4000000"
    by (simp_all add: restart_rt_def fresh_rt_def pmemHdrMagic_def load64_store64_apart apart_def)
  have s: "initState restart_rt = initNotDone"
    by (simp add: restart_rt_def fresh_rt_def initNotDone_def)
  have c: "\<not> ((0x4000000 - 0 :: u64) <s pmemInitSize \<or> go_rem 0x4000000 pmemInitSize \<noteq> 0)"
    "go_rem 0 (pageSize amd64_env) = 0"
    using concrete_layout(4) by (simp_all add: config_ok_def)
  have g: "growPmemRegion amd64_env 8192 261 st
     = (0x100000, st\<lparr>trace := trace st @ [SysAlloc 0x4000000, FreeSpan 0x30A000 7931]\<rparr>)" for st
    by (simp add: growPmemRegion_def Let_def emit_def concrete_defs)
  show ?thesis
    using c m s
    by (simp add: PmallocInit_def Let_def concrete_layout g println_trace emit_def initNotDone_def)
      (simp add: restart_rt_def fresh_rt_def concrete_defs)
qed

theorem PmallocInit_size_mismatch_witness:
  "PmallocInit amd64_env ''pmem'' 0x4000000 0 restart_rt
     = Inr (0, restart_rt\<lparr>fname := ''pmem'', initState := initNotDone, startAddr := 0x30A000,
                          pm := (pm restart_rt)\<lparr>trace :=
                            [SysAlloc 0x4000000, FreeSpan 0x30A000 7931,
                             Println ''Not a first time initialization'',
                             Println ''Initialization size does not match'',
                             SysFree 0x100000 0x4000000]\<rparr>\<rparr>)"
proof -
  have m: "load64 (mem (pm restart_rt)) (0x100000 + 0) = pmemHdrMagic"
    "load64 (mem (pm restart_rt)) (0x100000 + 0 + 8) \<noteq> 0x4000000"
    by (simp_all add: restart_rt_def fresh_rt_def pmemHdrMagic_def load64_store64_apart apart_def)
  have s: "initState restart_rt = initNotDone" "(0x100000 :: u64) \<noteq> 0"
    "trace (pm restart_rt) = []"
    by (simp_all add: restart_rt_def fresh_rt_def initNotDone_def)
  from PmallocInit_size_mismatch [OF concrete_layout(4) s(1) concrete_sysAlloc s(2) m, of "''pmem''"]
  show ?thesis
    by (simp add: concrete_layout concrete_ps s(3))
qed

theorem PmallocInit_config_error_witness:
  "(\<exists>msg. PmallocInit amd64_env ''pmem'' 0x3000000 0 fresh_rt
     = Inr (0, fresh_rt\<lparr>pm := (pm fresh_rt)\<lparr>trace := trace (pm fresh_rt) @ [Println msg]\<rparr>\<rparr>))
   \<and> (\<exists>msg. PmallocInit amd64_env ''pmem'' 0x4000000 0x2000 fresh_rt
     = Inr (0, fresh_rt\<lparr>pm := (pm fresh_rt)\<lparr>trace := trace (pm fresh_rt) @ [Println msg]\<rparr>\<rparr>))"
proof -
  have p: "pageShift amd64_env < 63" by (simp add: concrete_defs)
  have a: "sint (0x3000000 - 0 :: u64) < 64 * 1024 * 1024" by simp
  have b: "- (2 ^ 63) \<le> sint (0x4000000 :: u64) - sint (0x2000 :: u64)
           \<and> sint (0x4000000 :: u64) - sint (0x2000 :: u64) < 64 * 1024 * 1024" by simp
  show ?thesis
    using PmallocInit_config_error [OF p disjI1, OF a, of "''pmem''" fresh_rt]
      PmallocInit_config_error [OF p disjI2, OF disjI1, OF b, of "''pmem''" fresh_rt]
    by simp
qed

section \<open>Initialization: the usable range\<close>

lemma sint_nonneg_unat:
  assumes "0 \<le> sint (w :: u64)"
  shows "sint w = int (unat w)" and "unat w < 2 ^ 63"
proof -
  have lt: "sint w < 2 ^ 63" using sint_lt [of w] by simp
  then have "take_bit 64 (sint w) = sint w"
    using assms by (intro take_bit_int_eq_self) simp_all
  then have u: "uint w = sint w" using uint_sint [of w] by simp
  then show s: "sint w = int (unat w)" by (metis uint_nat)
  from lt s have "int (unat w) < 2 ^ 63" by simp
  then show "unat w < 2 ^ 63" by (simp add: nat_int_comparison)
qed

lemma signed_drop_bit_nonneg:
  assumes "unat (w :: u64) < 2 ^ 63"
  shows "signed_drop_bit n w = drop_bit n w"
proof -
  have "w < 2 ^ 63" using assms by (simp add: word_less_nat_alt)
  then have m: "w AND mask 63 = w" by (simp add: less_mask_eq)
  have "bit w 63 = bit (w AND mask 63) 63" by (simp only: m)
  then have "\<not> bit w 63" by (simp add: bit_simps)
  then show ?thesis
    by (intro bit_word_eqI) (auto simp: bit_simps dest: bit_imp_le_length)
qed

lemma unat_2p: "n < 64 \<Longrightarrow> unat (2 ^ n :: u64) = 2 ^ n"
proof -
  assume "n < 64"
  then have "(2 :: nat) ^ n < 2 ^ 64" by (intro power_strict_increasing) simp_all
  then have "unat (of_nat (2 ^ n) :: u64) = 2 ^ n"
    by (simp only: unat_of_nat) (simp add: take_bit_nat_eq_self)
  then show ?thesis by simp
qed

lemma unat_pageSize: "pageShift k < 64 \<Longrightarrow> unat (pageSize k) = 2 ^ pageShift k"
  by (simp add: pageSize_def push_bit_eq_mult unat_2p)

lemma drop_bit_round:
  "drop_bit (pageShift k) (round_uintptr x (pageSize k)) = drop_bit (pageShift k) (x + pageSize k - 1)"
proof -
  have "pageSize k - 1 = mask (pageShift k)"
    by (simp add: pageSize_def push_bit_eq_mult mask_eq_exp_minus_1)
  then show ?thesis
    unfolding round_uintptr_def
    by (intro bit_word_eqI) (auto simp: bit_simps dest: bit_imp_le_length)
qed

lemma header_le_avail:
  fixes A P :: nat
  assumes "32 \<le> P" and "P dvd A" and "0 < A"
  shows "(A div P) * (P div 32) + (A div P) * 4 + 16 \<le> A"
proof -
  from assms obtain a where a: "A = P * a" by (auto simp: dvd_def)
  with assms have a1: "1 \<le> a" by (cases a) auto
  have d: "A div P = a" using a assms(1) by simp
  have "P div 32 + 20 \<le> P" using assms(1) by arith
  then have "a * (P div 32 + 20) \<le> a * P" by (rule mult_le_mono2)
  moreover have "a * (P div 32) + a * 4 + 16 \<le> a * (P div 32) + a * 4 + a * 16"
    using a1 by simp
  moreover have "a * (P div 32) + a * 4 + a * 16 = a * (P div 32 + 20)"
    by (simp add: algebra_simps)
  ultimately have "a * (P div 32) + a * 4 + 16 \<le> a * P" by linarith
  then show ?thesis using assms(1) unfolding d a by (simp add: mult.commute)
qed

lemma init_success_addrs:
  assumes "PmallocInit k fnm sz offs rt = Inr (p, rt')" and "p \<noteq> 0"
  shows "startAddr rt' = p + push_bit (pageShift k) (reservePages k sz offs)"
    and "endAddr rt' = startAddr rt'
           + push_bit (pageShift k) (totalPages k sz - reservePages k sz offs) - 1"
    and "initState rt' = initDone"
  using assms
  by (auto simp: PmallocInit_def PmallocInit_finish_def growPmemRegion_def Let_def
      split: if_splits prod.splits)

lemma int_diff_le: "(2 :: int) ^ 26 \<le> int a - int b \<Longrightarrow> b + 2 ^ 26 \<le> a"
  by simp

lemma valid_config_nat:
  assumes "valid_config k sz offs" and "pageShift k \<le> 26"
  shows "unat offs + 2 ^ 26 \<le> unat sz" and "unat sz < 2 ^ 63"
    and "2 ^ pageShift k dvd unat offs" and "2 ^ pageShift k dvd unat sz"
proof -
  from assms(1) have o: "0 \<le> sint offs" and d: "2 ^ 26 \<le> sint sz - sint offs"
    and ds: "2 ^ 26 dvd sint sz" and dp: "2 ^ pageShift k dvd sint offs"
    by (simp_all add: valid_config_def)
  from o d have s: "0 \<le> sint sz" by simp
  note uo = sint_nonneg_unat [OF o] and us = sint_nonneg_unat [OF s]
  from d [unfolded uo(1) us(1)] show "unat offs + 2 ^ 26 \<le> unat sz" by (rule int_diff_le)
  show "unat sz < 2 ^ 63" by (rule us(2))
  from dp [unfolded uo(1)] have "int (2 ^ pageShift k) dvd int (unat offs)" by simp
  then show "2 ^ pageShift k dvd unat offs" by (simp only: int_dvd_int_iff)
  from ds [unfolded us(1)] have "int (2 ^ 26) dvd int (unat sz)" by simp
  then have "(2 :: nat) ^ 26 dvd unat sz" by (simp only: int_dvd_int_iff)
  moreover have "(2 :: nat) ^ pageShift k dvd 2 ^ 26"
    using assms(2) by (rule le_imp_power_dvd)
  ultimately show "2 ^ pageShift k dvd unat sz" by (rule dvd_trans [rotated])
qed

lemma unat_push_bit_pages:
  assumes "n < 64" and "unat (w :: u64) * 2 ^ n < 2 ^ 64"
  shows "unat (push_bit n w) = unat w * 2 ^ n"
proof -
  have "unat (w * 2 ^ n) = unat w * unat (2 ^ n :: u64)"
    using assms by (intro unat_mult_lem [THEN iffD1]) (simp add: unat_2p)
  then show ?thesis using assms(1) by (simp add: push_bit_eq_mult unat_2p)
qed

lemma unat_drop_bit_div: "unat (drop_bit n w) = unat w div 2 ^ n" for w :: u64
proof -
  have "unat (drop_bit n w) = drop_bit n (unat w)" by (rule unat_drop_bit_eq)
  then show ?thesis by (simp only: drop_bit_eq_div)
qed

lemma div_round: "0 < (P :: nat) \<Longrightarrow> (P * s + P - 1) div P = s"
proof -
  assume P: "0 < P"
  then have "P * s + P - 1 = (P - 1) + s * P" by (simp add: mult.commute)
  also have "\<dots> div P = s + (P - 1) div P" using P by (simp only: div_mult_self1)
  also have "\<dots> = s" using P by simp
  finally show ?thesis .
qed

lemma unat_dec: "(w :: u64) \<noteq> 0 \<Longrightarrow> unat (w - 1) = unat w - 1"
  by (rule unat_minus_one)

lemma layout_nat:
  assumes v: "valid_config k sz offs" and ps: "5 \<le> pageShift k" "pageShift k \<le> 26"
  shows "unat (headerSize k sz offs)
           = (unat sz - unat offs) div 2 ^ pageShift k * (2 ^ pageShift k div 32)
             + (unat sz - unat offs) div 2 ^ pageShift k * 4 + 16"
    and "unat offs + unat (headerSize k sz offs) \<le> unat sz"
    and "unat (reservePages k sz offs)
           = (unat offs + unat (headerSize k sz offs) + 2 ^ pageShift k - 1) div 2 ^ pageShift k"
    and "unat (totalPages k sz) = unat sz div 2 ^ pageShift k"
    and "unat (reservePages k sz offs) \<le> unat (totalPages k sz)"
proof -
  let ?n = "pageShift k"
  let ?P = "(2 :: nat) ^ ?n"
  let ?S = "unat sz" and ?O = "unat offs"
  let ?a = "(?S - ?O) div ?P"
  note c = valid_config_nat [OF v ps(2)]
  have n64: "?n < 64" using ps(2) by simp
  have P32: "32 \<le> ?P"
    using power_increasing [of 5 ?n "2 :: nat"] ps(1) by simp
  have P0: "0 < ?P" by simp
  have le: "offs \<le> sz" using c(1) by (simp add: word_le_nat_alt)
  have A: "unat (sz - offs) = ?S - ?O" by (rule unat_sub [OF le])
  have A63: "?S - ?O < 2 ^ 63" using c(2) by simp
  have Apos: "0 < ?S - ?O" using c(1) by simp
  have dA: "?P dvd ?S - ?O" using c(3,4) by (rule dvd_diff_nat [rotated])
  have ap: "unat (signed_drop_bit ?n (sz - offs)) = ?a"
    using A63 by (simp add: signed_drop_bit_nonneg A unat_drop_bit_div)
  have hb: "unat (heapBytesPerPage k) = ?P div 32"
    by (simp add: heapBytesPerPage_def unat_div unat_pageSize [OF n64])
  have tot: "?a * (?P div 32) + ?a * 4 + 16 \<le> ?S - ?O"
    by (rule header_le_avail [OF P32 dA Apos])
  have m1: "unat (signed_drop_bit ?n (sz - offs) * heapBytesPerPage k) = ?a * (?P div 32)"
    using tot A63 by (subst unat_mult_lem [THEN iffD1]) (simp_all add: ap hb)
  have m2: "unat (signed_drop_bit ?n (sz - offs) * logBytesPerPage) = ?a * 4"
    using tot A63 by (subst unat_mult_lem [THEN iffD1]) (simp_all add: ap logBytesPerPage_def)
  have s1: "unat (signed_drop_bit ?n (sz - offs) * heapBytesPerPage k
                  + signed_drop_bit ?n (sz - offs) * logBytesPerPage)
              = ?a * (?P div 32) + ?a * 4"
    using tot A63 by (subst unat_add_lem [THEN iffD1]) (simp_all add: m1 m2)
  show H: "unat (headerSize k sz offs) = ?a * (?P div 32) + ?a * 4 + 16"
    unfolding headerSize_def Let_def
    using tot A63 by (subst unat_add_lem [THEN iffD1]) (simp_all add: s1 pmemHdrSize_def)
  show OH: "?O + unat (headerSize k sz offs) \<le> ?S"
    using tot c(1) by (simp add: H)
  have x: "unat (offs + headerSize k sz offs) = ?O + unat (headerSize k sz offs)"
    using OH c(2) by (subst unat_add_lem [THEN iffD1]) simp_all
  have P26: "?P \<le> 2 ^ 26" using ps(2) by (intro power_increasing) simp_all
  have y: "unat (offs + headerSize k sz offs + pageSize k)
             = ?O + unat (headerSize k sz offs) + ?P"
    using OH c(2) P26 by (subst unat_add_lem [THEN iffD1]) (simp_all add: x unat_pageSize [OF n64])
  have "offs + headerSize k sz offs + pageSize k \<noteq> 0"
    using y P0 by (metis add_is_0 less_numeral_extra(3) unat_0)
  then have "unat (offs + headerSize k sz offs + pageSize k - 1)
             = unat (offs + headerSize k sz offs + pageSize k) - 1"
    by (rule unat_dec)
  then have z: "unat (offs + headerSize k sz offs + pageSize k - 1)
             = ?O + unat (headerSize k sz offs) + ?P - 1"
    by (simp only: y)
  show R: "unat (reservePages k sz offs) = (?O + unat (headerSize k sz offs) + ?P - 1) div ?P"
    unfolding reservePages_def Let_def drop_bit_round
    by (simp only: unat_drop_bit_div z)
  show T: "unat (totalPages k sz) = ?S div ?P"
    by (simp add: totalPages_def unat_drop_bit_div)
  from c(4) obtain s where s: "?S = ?P * s" by (auto simp: dvd_def)
  have "(?O + unat (headerSize k sz offs) + ?P - 1) div ?P \<le> (?S + ?P - 1) div ?P"
    using OH by (intro div_le_mono) simp
  also have "(?S + ?P - 1) div ?P = s"
    unfolding s using P0 by (rule div_round)
  also have "s = ?S div ?P" unfolding s by simp
  finally show "unat (reservePages k sz offs) \<le> unat (totalPages k sz)"
    by (simp only: R T)
qed

lemma usable_range_nat:
  assumes "PmallocInit k fnm sz offs rt = Inr (p, rt')" and "p \<noteq> 0"
    and "valid_config k sz offs" and "5 \<le> pageShift k" and "pageShift k \<le> 26"
    and "unat p + unat sz < 2 ^ 64"
  shows "unat (headerSize k sz offs)
           = (unat sz - unat offs) div 2 ^ pageShift k * (2 ^ pageShift k div 32)
             + (unat sz - unat offs) div 2 ^ pageShift k * 4 + 16
       \<and> unat (reservePages k sz offs)
           = (unat offs + unat (headerSize k sz offs) + 2 ^ pageShift k - 1) div 2 ^ pageShift k
       \<and> unat (totalPages k sz) = unat sz div 2 ^ pageShift k
       \<and> unat (reservePages k sz offs) \<le> unat (totalPages k sz)
       \<and> unat (startAddr rt') = unat p + unat (reservePages k sz offs) * 2 ^ pageShift k
       \<and> unat (endAddr rt') = unat p + unat sz - 1
       \<and> unat (endAddr rt') + 1 - unat (startAddr rt')
           = (unat (totalPages k sz) - unat (reservePages k sz offs)) * 2 ^ pageShift k"
proof -
  let ?n = "pageShift k"
  let ?P = "(2 :: nat) ^ ?n"
  let ?R = "reservePages k sz offs" and ?T = "totalPages k sz"
  note l = layout_nat [OF assms(3-5)]
  note c = valid_config_nat [OF assms(3,5)]
  note a = init_success_addrs [OF assms(1,2)]
  have n64: "?n < 64" using assms(5) by simp
  from c(4) obtain s where s: "unat sz = ?P * s" by (auto simp: dvd_def)
  have T: "unat ?T = s" by (simp add: l(4) s)
  have TS: "unat ?T * ?P = unat sz" by (simp add: T s mult.commute)
  have RS: "unat ?R * ?P \<le> unat sz"
    using l(5) by (simp flip: TS)
  have pr: "unat (push_bit ?n ?R) = unat ?R * ?P"
    using RS c(2) by (intro unat_push_bit_pages [OF n64]) simp
  have st: "unat (startAddr rt') = unat p + unat ?R * ?P"
    unfolding a(1) using RS assms(6)
    by (subst unat_add_lem [THEN iffD1]) (simp_all add: pr)
  have le: "?R \<le> ?T" using l(5) by (simp add: word_le_nat_alt)
  have U: "unat (?T - ?R) = unat ?T - unat ?R" by (rule unat_sub [OF le])
  have UP: "(unat ?T - unat ?R) * ?P = unat sz - unat ?R * ?P"
    by (simp add: diff_mult_distrib TS)
  have "unat (push_bit ?n (?T - ?R)) = unat (?T - ?R) * ?P"
    using c(2) by (intro unat_push_bit_pages [OF n64]) (simp add: U UP)
  then have pu: "unat (push_bit ?n (?T - ?R)) = (unat ?T - unat ?R) * ?P"
    by (simp only: U)
  have e1: "unat (startAddr rt' + push_bit ?n (?T - ?R)) = unat p + unat sz"
    using RS assms(6)
    by (subst unat_add_lem [THEN iffD1]) (simp_all add: st pu UP)
  have "startAddr rt' + push_bit ?n (?T - ?R) \<noteq> 0"
    using e1 c(1) by (metis add_is_0 unat_0 le_zero_eq add_eq_0_iff_both_eq_0 power_eq_0_iff zero_neq_numeral)
  then have "unat (startAddr rt' + push_bit ?n (?T - ?R) - 1)
               = unat (startAddr rt' + push_bit ?n (?T - ?R)) - 1"
    by (rule unat_dec)
  then have en: "unat (endAddr rt') = unat p + unat sz - 1"
    by (simp only: a(2) e1)
  have len: "unat (endAddr rt') + 1 - unat (startAddr rt') = (unat ?T - unat ?R) * ?P"
    using c(1) RS by (simp add: en st UP)
  from l(1,3,4,5) st en len show ?thesis by simp
qed

text \<open>
  C6. For every \<open>PmallocInit\<close> that returns a mapped address \<open>p\<close> (a first-time run or a
  restart), the start address is \<open>p\<close> plus the reserved pages, and the range from the start
  address to the end address, both included, has \<open>(totalPages - reservePages) * pageSize\<close>
  bytes. For a configuration without wrap-around, a page shift between 5 and 26 and a
  mapping that ends below \<open>2^64\<close>, the same holds in natural numbers: the reserved pages
  are offset plus header size rounded up to whole pages, they do not exceed the total
  pages, and the end address is the last byte of the mapping.
\<close>

theorem PmallocInit_usable_range:
  assumes "PmallocInit k fnm sz offs rt = Inr (p, rt')" and "p \<noteq> 0"
  shows "startAddr rt' = p + push_bit (pageShift k) (reservePages k sz offs)
       \<and> endAddr rt' - startAddr rt' + 1
           = push_bit (pageShift k) (totalPages k sz - reservePages k sz offs)
       \<and> initState rt' = initDone
       \<and> (valid_config k sz offs \<and> 5 \<le> pageShift k \<and> pageShift k \<le> 26
            \<and> unat p + unat sz < 2 ^ 64 \<longrightarrow>
            unat (headerSize k sz offs)
              = (unat sz - unat offs) div 2 ^ pageShift k * (2 ^ pageShift k div 32)
                + (unat sz - unat offs) div 2 ^ pageShift k * 4 + 16
          \<and> unat (reservePages k sz offs)
              = (unat offs + unat (headerSize k sz offs) + 2 ^ pageShift k - 1) div 2 ^ pageShift k
          \<and> unat (totalPages k sz) = unat sz div 2 ^ pageShift k
          \<and> unat (reservePages k sz offs) \<le> unat (totalPages k sz)
          \<and> unat (startAddr rt') = unat p + unat (reservePages k sz offs) * 2 ^ pageShift k
          \<and> unat (endAddr rt') = unat p + unat sz - 1
          \<and> unat (endAddr rt') + 1 - unat (startAddr rt')
              = (unat (totalPages k sz) - unat (reservePages k sz offs)) * 2 ^ pageShift k)"
proof -
  note a = init_success_addrs [OF assms]
  have "endAddr rt' - startAddr rt' + 1
           = push_bit (pageShift k) (totalPages k sz - reservePages k sz offs)"
    by (simp add: a(2))
  with a(1,3) usable_range_nat [OF assms] show ?thesis by blast
qed

lemma concrete_valid: "valid_config amd64_env 0x4000000 0"
  by (simp add: valid_config_def concrete_ps)

theorem PmallocInit_usable_range_witness:
  "\<exists>rt'. PmallocInit amd64_env ''pmem'' 0x4000000 0 fresh_rt = Inr (0x100000, rt')
     \<and> unat (reservePages amd64_env 0x4000000 0) = 261
     \<and> unat (startAddr rt') = 0x30A000 \<and> unat (endAddr rt') = 0x40FFFFF
     \<and> unat (endAddr rt') + 1 - unat (startAddr rt') = 7931 * 8192"
proof -
  have h: "initState fresh_rt = initNotDone" "(0x100000 :: u64) \<noteq> 0"
    "load64 (mem (pm fresh_rt)) (0x100000 + 0) \<noteq> pmemHdrMagic"
    "totalPages amd64_env 0x4000000 - reservePages amd64_env 0x4000000 0 \<le> 2 ^ 28"
    "push_bit (pageShift amd64_env) (totalPages amd64_env 0x4000000 - reservePages amd64_env 0x4000000 0) div 32 \<le> 2 ^ 28"
    by (simp_all add: concrete_layout concrete_ps fresh_rt_def initNotDone_def pmemHdrMagic_def zero_pmem_def)
  from first_time_run [OF concrete_layout(4) h(1) concrete_sysAlloc h(2-5), of "''pmem''"]
  obtain rt' where r: "PmallocInit amd64_env ''pmem'' 0x4000000 0 fresh_rt = Inr (0x100000, rt')"
    by blast
  from PmallocInit_usable_range [OF r h(2)] concrete_valid
  have "unat (startAddr rt') = 0x30A000 \<and> unat (endAddr rt') = 0x40FFFFF
     \<and> unat (endAddr rt') + 1 - unat (startAddr rt') = 7931 * 8192"
    by (simp add: concrete_ps concrete_layout)
  with r show ?thesis by (simp add: concrete_layout)
qed

end
